theory Spec2Isabelle
  imports Main "HOL-Library.Word" "HOL-Library.Sublist"
begin

unbundle bit_operations_syntax

section \<open>JavaScript strings\<close>

text \<open>
  A JavaScript string is a sequence of UTF-16 code units, so a string is a list of
  16-bit words; \<open>js\<close> turns an ASCII literal into such a list.
  A Node \<open>Buffer\<close> is a list of bytes.
\<close>

type_synonym code_unit = "16 word"
type_synonym jsstring = "code_unit list"
type_synonym buffer = "8 word list"

definition js :: "string \<Rightarrow> jsstring" where
  "js s = map of_char s"

text \<open>
  The regular-expression class \<open>\s\<close> and \<open>String.prototype.trim\<close> use the same set:
  the ECMAScript WhiteSpace and LineTerminator code points (tab, LF, VT, FF, CR, space,
  no-break space, U+1680, U+2000..U+200A, U+2028, U+2029, U+202F, U+205F, U+3000, U+FEFF).
\<close>

definition is_ws :: "code_unit \<Rightarrow> bool" where
  "is_ws c = (let n = unat c in
     (9 \<le> n \<and> n \<le> 13) \<or> n = 0x20 \<or> n = 0xA0 \<or> n = 0x1680 \<or>
     (0x2000 \<le> n \<and> n \<le> 0x200A) \<or> n = 0x2028 \<or> n = 0x2029 \<or>
     n = 0x202F \<or> n = 0x205F \<or> n = 0x3000 \<or> n = 0xFEFF)"

text \<open>
  The ranges \<open>a-z\<close> and \<open>0-9\<close> under the flag \<open>i\<close>. Without the flag \<open>u\<close> the
  case folding of a regular expression never maps a code unit of 128 or more to one
  below 128, so the ranges match the ASCII letters of both cases, the digits, and
  nothing else.
\<close>

definition is_alnum :: "code_unit \<Rightarrow> bool" where
  "is_alnum c = (let n = unat c in
     (0x30 \<le> n \<and> n \<le> 0x39) \<or> (0x41 \<le> n \<and> n \<le> 0x5A) \<or> (0x61 \<le> n \<and> n \<le> 0x7A))"

text \<open>
  \<open>toLowerCase\<close> on the ASCII letters. The Unicode mapping sends no code unit outside
  ASCII to one of the letters searched for below (\<open>captcha\<close>, \<open>.pdf\<close>): the only
  non-ASCII characters whose lower case is an ASCII letter give \<open>i\<close> and \<open>k\<close>. So the
  searches \<open>s.toLowerCase().includes(...)\<close> of the source agree with this model.
\<close>

definition lower_unit :: "code_unit \<Rightarrow> code_unit" where
  "lower_unit c = (if 0x41 \<le> unat c \<and> unat c \<le> 0x5A then c + 0x20 else c)"

definition toLowerCase :: "jsstring \<Rightarrow> jsstring" where
  "toLowerCase s = map lower_unit s"

fun str_includes :: "'a list \<Rightarrow> 'a list \<Rightarrow> bool" where
  "str_includes [] sub = (sub = [])"
| "str_includes (c # cs) sub = (prefix sub (c # cs) \<or> str_includes cs sub)"

definition trim :: "jsstring \<Rightarrow> jsstring" where
  "trim s = rev (dropWhile is_ws (rev (dropWhile is_ws s)))"

text \<open>\<open>s.substring(a, b)\<close> for non-negative integer arguments: the two are swapped
  when out of order and clamped to the length.\<close>

definition substring :: "'a list \<Rightarrow> nat \<Rightarrow> nat \<Rightarrow> 'a list" where
  "substring s a b = take (max a b - min a b) (drop (min a b) s)"

text \<open>A value used as a condition: \<open>null\<close> and the empty string are falsy.\<close>

definition truthy :: "jsstring option \<Rightarrow> bool" where
  "truthy v = (case v of None \<Rightarrow> False | Some s \<Rightarrow> s \<noteq> [])"

section \<open>downloader.js: sanitizeFilename\<close>

text \<open>
  \<^verbatim>\<open>name.replace(/[^a-z0-9\s\-_]/gi, '').replace(/\s+/g, '_').substring(0, 80)\<close>
\<close>

definition in_kept_class :: "code_unit \<Rightarrow> bool" where
  "in_kept_class c = (is_alnum c \<or> is_ws c \<or> c = 0x2D \<or> c = 0x5F)"

definition strip_unsafe :: "jsstring \<Rightarrow> jsstring" where
  "strip_unsafe s = filter in_kept_class s"

function replace_ws :: "jsstring \<Rightarrow> jsstring" where
  "replace_ws [] = []"
| "replace_ws (c # cs) =
     (if is_ws c then 0x5F # replace_ws (dropWhile is_ws cs) else c # replace_ws cs)"
  by pat_completeness auto
termination
  by (relation "measure length") (auto simp: length_dropWhile_le less_Suc_eq_le)

definition sanitizeFilename :: "jsstring \<Rightarrow> jsstring" where
  "sanitizeFilename name = substring (replace_ws (strip_unsafe name)) 0 80"

text \<open>The characters of \<open>[A-Za-z0-9_-]\<close>.\<close>

definition safe_char :: "code_unit \<Rightarrow> bool" where
  "safe_char c = (is_alnum c \<or> c = 0x2D \<or> c = 0x5F)"

text \<open>
  The sanitization as section 4.5 of the specification words it: strip every character
  outside \<open>[A-Za-z0-9 _-]\<close> (the class holds the space only), collapse runs of
  whitespace to one underscore, truncate to 80 characters.
\<close>

definition in_spec_class :: "code_unit \<Rightarrow> bool" where
  "in_spec_class c = (is_alnum c \<or> c = 0x20 \<or> c = 0x5F \<or> c = 0x2D)"

definition sanitize_spec :: "jsstring \<Rightarrow> jsstring" where
  "sanitize_spec x = take 80 (replace_ws (filter in_spec_class x))"

section \<open>Node's path.join\<close>

text \<open>
  \<open>path.join(a, b)\<close> of the POSIX flavour: the non-empty arguments are joined with
  \<open>/\<close> and the result is normalised, segment by segment: empty segments and \<open>.\<close> are
  dropped, \<open>..\<close> removes the segment before it (or stays, on a relative path, when
  there is none to remove). The win32 flavour splits at \<open>\\<close> as well.
\<close>

fun split_on :: "'a \<Rightarrow> 'a list \<Rightarrow> 'a list list" where
  "split_on sep [] = [[]]"
| "split_on sep (c # cs) =
     (if c = sep then [] # split_on sep cs
      else (case split_on sep cs of [] \<Rightarrow> [[c]] | w # ws \<Rightarrow> (c # w) # ws))"

fun join_segments :: "jsstring list \<Rightarrow> jsstring" where
  "join_segments [] = []"
| "join_segments [w] = w"
| "join_segments (w # v # ws) = w @ 0x2F # join_segments (v # ws)"

definition push_segment :: "bool \<Rightarrow> jsstring list \<Rightarrow> jsstring \<Rightarrow> jsstring list" where
  "push_segment allowAboveRoot res seg =
     (if seg = [] \<or> seg = js ''.'' then res
      else if seg = js ''..'' then
        (if res \<noteq> [] \<and> last res \<noteq> js ''..'' then butlast res
         else if allowAboveRoot then res @ [js ''..''] else res)
      else res @ [seg])"

definition normalizeString :: "jsstring \<Rightarrow> bool \<Rightarrow> jsstring" where
  "normalizeString path allowAboveRoot =
     join_segments (foldl (push_segment allowAboveRoot) [] (split_on 0x2F path))"

definition normalize :: "jsstring \<Rightarrow> jsstring" where
  "normalize path =
     (if path = [] then js ''.''
      else
        let isAbsolute = (hd path = 0x2F);
            trailingSeparator = (last path = 0x2F);
            p = normalizeString path (\<not> isAbsolute)
        in if p = [] then (if isAbsolute then js ''/'' else if trailingSeparator then js ''./'' else js ''.'')
           else (if isAbsolute then [0x2F] else []) @ p @ (if trailingSeparator then [0x2F] else []))"

definition path_join :: "jsstring \<Rightarrow> jsstring \<Rightarrow> jsstring" where
  "path_join a b =
     (if a = [] \<and> b = [] then js ''.''
      else if a = [] then normalize b
      else if b = [] then normalize a
      else normalize (a @ 0x2F # b))"

section \<open>config.js\<close>

definition OUTPUT_DIR :: jsstring where
  "OUTPUT_DIR = js ''./output/pdfs''"

section \<open>The world outside the program\<close>

text \<open>
  Every call that leaves the program can fail. The exceptions of the source, by the
  place that raises them:
  \<^item> \<open>FetchError\<close>: \<open>fetch\<close> rejects (network failure, timeout);
  \<^item> \<open>HttpStatusError\<close>: \<open>new Error(`HTTP ...`)\<close>, the response is not ok;
  \<^item> \<open>NotAPdf\<close>: \<open>new Error(`Not a PDF (content-type: ...)`)\<close>;
  \<^item> \<open>BufferError\<close>: \<open>response.buffer()\<close> rejects;
  \<^item> \<open>NotValidPdf\<close>: \<open>new Error('Downloaded file is not a valid PDF')\<close>;
  \<^item> \<open>WriteError\<close>: \<open>fs.writeFileSync\<close> throws;
  \<^item> \<open>MkdirError\<close>: \<open>fs.mkdirSync\<close> throws;
  \<^item> \<open>NewPageError\<close>: \<open>browser.newPage()\<close> rejects;
  \<^item> \<open>CloseError\<close>: \<open>pdfTab.close()\<close> rejects;
  \<^item> \<open>CaptchaDetected\<close>: \<open>new Error('CAPTCHA detected! ...')\<close>;
  \<^item> \<open>SelectorTimeout\<close>: \<open>page.waitForSelector\<close> rejects;
  \<^item> \<open>NoResultsFound\<close>: \<open>new Error('No results found. ...')\<close>.
\<close>

datatype js_error =
    FetchError | HttpStatusError | NotAPdf | BufferError | NotValidPdf | WriteError
  | MkdirError | NewPageError | CloseError
  | CaptchaDetected | SelectorTimeout | NoResultsFound

text \<open>A response of node-fetch: \<open>content_type\<close> is \<open>headers.get('content-type')\<close>
  (\<open>None\<close> for \<open>null\<close>), \<open>body\<close> is what \<open>response.buffer()\<close> resolves to (\<open>None\<close>
  when it rejects).\<close>

record response =
  status :: nat
  content_type :: "jsstring option"
  body :: "buffer option"

datatype fetch_result = FetchRejected | Response response

text \<open>
  A paper page as \<open>findPDFOnPage\<close> reads it: for each of its six selectors, in the
  order of the source, the \<open>href\<close> of the first element the selector matches
  (\<open>None\<close> when \<open>querySelector\<close> gives \<open>null\<close>), and the \<open>href\<close>s of all
  \<open>a[href]\<close> elements in document order.
\<close>

record paper_page =
  selector_hits :: "jsstring option list"
  link_hrefs :: "jsstring list"

text \<open>
  The environment answers the calls. It answers by the argument of the call, the same
  way each time: a server that answers one address differently on a second request is
  not modelled. Browsing contexts are numbered in the order in which \<open>newPage\<close> is
  called; \<open>new_page_ok\<close> and \<open>close_ok\<close> say whether creating and closing the
  context of that number succeeds. \<open>page_at url\<close> is \<open>None\<close> when the navigation or
  the evaluation in the page fails. \<open>resume_order\<close> is the order in which the pending
  calls of the concurrent units complete, each entry the index of the unit that is
  resumed next.
\<close>

record env =
  http_get :: "jsstring \<Rightarrow> fetch_result"
  mkdir_ok :: bool
  write_ok :: "jsstring \<Rightarrow> bool"
  new_page_ok :: "nat \<Rightarrow> bool"
  page_at :: "jsstring \<Rightarrow> paper_page option"
  close_ok :: "nat \<Rightarrow> bool"
  resume_order :: "nat list"

datatype event =
    Fetch jsstring | Write jsstring | NewPage nat | Goto nat jsstring | Close nat

text \<open>The state the program changes: the output directory, the files, the number of
  browsing contexts created, and the calls made so far, oldest first.\<close>

record world =
  dir_exists :: bool
  files :: "jsstring \<Rightarrow> buffer option"
  next_page :: nat
  events :: "event list"

definition emit :: "event \<Rightarrow> world \<Rightarrow> world" where
  "emit ev s = s\<lparr>events := events s @ [ev]\<rparr>"

section \<open>downloader.js: downloadPDF and findPDFOnPage\<close>

definition ensureOutputDir :: "env \<Rightarrow> world \<Rightarrow> js_error + world" where
  "ensureOutputDir e s =
     (if \<not> dir_exists s
      then (if mkdir_ok e then Inr (s\<lparr>dir_exists := True\<rparr>) else Inl MkdirError)
      else Inr s)"

text \<open>
  \<open>buffer.toString('ascii', lo, hi)\<close>. Node decodes \<open>'ascii'\<close> by clearing the highest
  bit of each byte and reading the result as Latin-1 (Node's Buffer documentation,
  "Buffers and character encodings").
\<close>

definition ascii_slice :: "buffer \<Rightarrow> nat \<Rightarrow> nat \<Rightarrow> jsstring" where
  "ascii_slice b lo hi = map (\<lambda>x. ucast (x AND 0x7F)) (take (hi - lo) (drop lo b))"

definition response_ok :: "response \<Rightarrow> bool" where
  "response_ok r = (200 \<le> status r \<and> status r \<le> 299)"

text \<open>\<open>response.headers.get('content-type') || ''\<close>\<close>

definition contentType_of :: "response \<Rightarrow> jsstring" where
  "contentType_of r = (case content_type r of None \<Rightarrow> [] | Some c \<Rightarrow> c)"

text \<open>The body of the \<open>try\<close> block of \<open>downloadPDF\<close>: \<open>Inl\<close> is an exception thrown
  in it. A write that fails is taken to leave the files as they were.\<close>

definition try_download ::
  "env \<Rightarrow> world \<Rightarrow> jsstring \<Rightarrow> jsstring \<Rightarrow> (js_error + jsstring) \<times> world" where
  "try_download e s url outputPath =
     (let s1 = emit (Fetch url) s in
      case http_get e url of
        FetchRejected \<Rightarrow> (Inl FetchError, s1)
      | Response r \<Rightarrow>
          if \<not> response_ok r then (Inl HttpStatusError, s1)
          else if \<not> str_includes (contentType_of r) (js ''pdf'') \<and>
                  \<not> str_includes (contentType_of r) (js ''octet-stream'')
          then (Inl NotAPdf, s1)
          else (case body r of
                  None \<Rightarrow> (Inl BufferError, s1)
                | Some buf \<Rightarrow>
                    if length buf < 5 \<or> ascii_slice buf 0 5 \<noteq> js ''%PDF-''
                    then (Inl NotValidPdf, s1)
                    else if write_ok e outputPath
                    then (Inr outputPath,
                          emit (Write outputPath) (s1\<lparr>files := (files s1)(outputPath \<mapsto> buf)\<rparr>))
                    else (Inl WriteError, s1)))"

definition outputPath_of :: "jsstring \<Rightarrow> jsstring" where
  "outputPath_of filename = path_join OUTPUT_DIR (sanitizeFilename filename @ js ''.pdf'')"

text \<open>\<open>downloadPDF\<close>: \<open>ensureOutputDir\<close> runs before the \<open>try\<close>, so its exception
  leaves the function; the \<open>catch\<close> turns every exception of the block into \<open>null\<close>.\<close>

definition downloadPDF ::
  "env \<Rightarrow> world \<Rightarrow> jsstring \<Rightarrow> jsstring \<Rightarrow> (js_error + jsstring option) \<times> world" where
  "downloadPDF e s url filename =
     (case ensureOutputDir e s of
        Inl err \<Rightarrow> (Inl err, s)
      | Inr s0 \<Rightarrow>
          (case try_download e s0 url (outputPath_of filename) of
             (Inl err, s1) \<Rightarrow> (Inr None, s1)
           | (Inr saved, s1) \<Rightarrow> (Inr (Some saved), s1)))"

text \<open>The function evaluated in the paper page: the first selector whose element has a
  non-empty \<open>href\<close>, then the first link whose \<open>href\<close> contains \<open>.pdf\<close>.\<close>

fun first_hit :: "jsstring option list \<Rightarrow> jsstring option" where
  "first_hit [] = None"
| "first_hit (h # hs) = (if truthy h then h else first_hit hs)"

fun first_pdf_link :: "jsstring list \<Rightarrow> jsstring option" where
  "first_pdf_link [] = None"
| "first_pdf_link (h # hs) =
     (if h \<noteq> [] \<and> str_includes (toLowerCase h) (js ''.pdf'') then Some h
      else first_pdf_link hs)"

definition scan_page :: "paper_page \<Rightarrow> jsstring option" where
  "scan_page pg =
     (case first_hit (take 6 (selector_hits pg)) of
        Some h \<Rightarrow> Some h
      | None \<Rightarrow> first_pdf_link (link_hrefs pg))"

definition findPDFOnPage ::
  "env \<Rightarrow> world \<Rightarrow> nat \<Rightarrow> jsstring \<Rightarrow> jsstring option \<times> world" where
  "findPDFOnPage e s tab paperUrl =
     (let s1 = emit (Goto tab paperUrl) s in
      case page_at e paperUrl of
        None \<Rightarrow> (None, s1)
      | Some pg \<Rightarrow> (scan_page pg, s1))"

section \<open>scholar.js: extractResults\<close>

text \<open>
  The rendered results page as the two functions evaluated in it read it. An anchor is
  its \<open>textContent\<close> and its \<open>href\<close> property (the empty string when the element has
  no such attribute). A result block is what the four queries on it return:
  \<open>.gs_rt a\<close>, the text of \<open>.gs_a\<close>, \<open>.gs_or_ggsm a\<close>, and all its anchors.
  \<open>items\<close> is \<open>querySelectorAll('.gs_r.gs_or.gs_scl')\<close>, in document order.
\<close>

record anchor =
  textContent :: jsstring
  href :: jsstring

record result_item =
  titleEl :: "anchor option"
  metaEl :: "jsstring option"
  pdfLinkEl :: "anchor option"
  allLinks :: "anchor list"

record document =
  doc_title :: jsstring
  has_captcha_form :: bool
  has_recaptcha :: bool
  has_results_container :: bool
  items :: "result_item list"

record paper =
  title :: jsstring
  paperUrl :: "jsstring option"
  directPdfUrl :: "jsstring option"
  meta :: jsstring

definition isCaptcha :: "document \<Rightarrow> bool" where
  "isCaptcha d =
     (str_includes (toLowerCase (doc_title d)) (js ''captcha'') \<or>
      has_captcha_form d \<or> has_recaptcha d)"

definition pdf_slot :: "anchor option \<Rightarrow> jsstring option" where
  "pdf_slot el =
     (case el of
        None \<Rightarrow> None
      | Some a \<Rightarrow>
          if str_includes (toLowerCase (href a)) (js ''.pdf'') \<or>
             str_includes (textContent a) (js ''PDF'')
          then Some (href a) else None)"

definition badge_step :: "jsstring option \<Rightarrow> anchor \<Rightarrow> jsstring option" where
  "badge_step d link =
     (if \<not> truthy d \<and> trim (textContent link) = js ''[PDF]'' then Some (href link) else d)"

definition extract_item :: "result_item \<Rightarrow> paper" where
  "extract_item item =
     \<lparr> title = (case titleEl item of Some a \<Rightarrow> trim (textContent a)
                                    | None \<Rightarrow> js ''Unknown Title''),
       paperUrl = (case titleEl item of Some a \<Rightarrow> Some (href a) | None \<Rightarrow> None),
       directPdfUrl = foldl badge_step (pdf_slot (pdfLinkEl item)) (allLinks item),
       meta = (case metaEl item of Some t \<Rightarrow> trim t | None \<Rightarrow> []) \<rparr>"

text \<open>\<open>items.forEach((item) => { ...; results.push({...}) })\<close>\<close>

definition push_item :: "paper list \<Rightarrow> result_item \<Rightarrow> paper list" where
  "push_item results item = results @ [extract_item item]"

definition extractResults :: "document \<Rightarrow> js_error + paper list" where
  "extractResults d =
     (if isCaptcha d then Inl CaptchaDetected
      else if \<not> has_results_container d then Inl SelectorTimeout
      else Inr (foldl push_item [] (items d)))"

section \<open>index.js: the download of one paper\<close>

text \<open>The object \<open>result\<close>; \<open>r_title\<close> and \<open>r_method\<close> are its fields \<open>title\<close> and
  \<open>method\<close>.\<close>

record outcome =
  r_title :: jsstring
  downloaded :: bool
  savedPath :: "jsstring option"
  r_method :: "jsstring option"

definition DIRECT_LINK :: jsstring where
  "DIRECT_LINK = js ''Direct [PDF] link''"

definition PAGE_SCAN :: jsstring where
  "PAGE_SCAN = js ''Found on paper page''"

definition initial_result :: "paper \<Rightarrow> outcome" where
  "initial_result p =
     \<lparr> r_title = title p, downloaded = False, savedPath = None, r_method = None \<rparr>"

definition mark_downloaded :: "outcome \<Rightarrow> jsstring option \<Rightarrow> jsstring \<Rightarrow> outcome" where
  "mark_downloaded r saved m = r\<lparr>downloaded := True, savedPath := saved, r_method := Some m\<rparr>"

text \<open>The body of the \<open>try\<close> block of strategy B, on the tab \<open>tab\<close>.\<close>

definition scan_and_download ::
  "env \<Rightarrow> world \<Rightarrow> nat \<Rightarrow> paper \<Rightarrow> jsstring \<Rightarrow> outcome \<Rightarrow> (js_error + outcome) \<times> world" where
  "scan_and_download e s tab p url r =
     (case findPDFOnPage e s tab url of
        (pdfUrl, s1) \<Rightarrow>
          (case pdfUrl of
             None \<Rightarrow> (Inr r, s1)
           | Some u \<Rightarrow>
               if u = [] then (Inr r, s1)
               else (case downloadPDF e s1 u (title p) of
                       (Inl err, s2) \<Rightarrow> (Inl err, s2)
                     | (Inr saved, s2) \<Rightarrow>
                         if truthy saved then (Inr (mark_downloaded r saved PAGE_SCAN), s2)
                         else (Inr r, s2))))"

text \<open>Strategy B: the tab is opened before the \<open>try\<close>; the \<open>finally\<close> closes it,
  and an exception of \<open>close\<close> replaces the result of the block.\<close>

definition strategy_b :: "env \<Rightarrow> world \<Rightarrow> paper \<Rightarrow> outcome \<Rightarrow> (js_error + outcome) \<times> world" where
  "strategy_b e s p r =
     (case paperUrl p of
        None \<Rightarrow> (Inr r, s)
      | Some url \<Rightarrow>
          if url = [] then (Inr r, s)
          else if \<not> new_page_ok e (next_page s) then (Inl NewPageError, s)
          else
            (let tab = next_page s;
                 s1 = emit (NewPage tab) (s\<lparr>next_page := Suc tab\<rparr>)
             in case scan_and_download e s1 tab p url r of
                  (res, s2) \<Rightarrow>
                    if close_ok e tab then (res, emit (Close tab) s2)
                    else (Inl CloseError, emit (Close tab) s2)))"

text \<open>The function mapped over \<open>targets\<close>: strategy A, then strategy B.\<close>

definition download_paper :: "env \<Rightarrow> world \<Rightarrow> paper \<Rightarrow> (js_error + outcome) \<times> world" where
  "download_paper e s p =
     (let r = initial_result p in
      case directPdfUrl p of
        None \<Rightarrow> strategy_b e s p r
      | Some url \<Rightarrow>
          if url = [] then strategy_b e s p r
          else (case downloadPDF e s url (title p) of
                  (Inl err, s1) \<Rightarrow> (Inl err, s1)
                | (Inr saved, s1) \<Rightarrow>
                    if truthy saved then (Inr (mark_downloaded r saved DIRECT_LINK), s1)
                    else strategy_b e s1 p r))"

section \<open>index.js: main\<close>

text \<open>\<open>parseInt\<close> gives an integer or \<open>NaN\<close>; \<open>Array.prototype.slice\<close> reads
  \<open>NaN\<close> as 0 and counts a negative index from the end.\<close>

datatype jsnum = NaN | Num int

definition relative_index :: "nat \<Rightarrow> int \<Rightarrow> nat" where
  "relative_index len k = (if k < 0 then nat (max (int len + k) 0) else min (nat k) len)"

definition to_integer :: "jsnum \<Rightarrow> int" where
  "to_integer x = (case x of NaN \<Rightarrow> 0 | Num k \<Rightarrow> k)"

definition array_slice :: "'a list \<Rightarrow> int \<Rightarrow> jsnum \<Rightarrow> 'a list" where
  "array_slice xs start fin =
     (let k = relative_index (length xs) start;
          final = relative_index (length xs) (to_integer fin)
      in take (final - k) (drop k xs))"

text \<open>An entry of the array \<open>Promise.allSettled\<close> resolves to.\<close>

datatype 'a settled = Fulfilled 'a | Rejected js_error

definition settle :: "js_error + 'a \<Rightarrow> 'a settled" where
  "settle x = (case x of Inl err \<Rightarrow> Rejected err | Inr v \<Rightarrow> Fulfilled v)"

subsection \<open>The units under the event loop\<close>

text \<open>
  \<open>targets.map(async (paper, i) => ...)\<close> starts every unit before any of them
  finishes: each runs up to its first \<open>await\<close> and is suspended there, also at the
  \<open>await\<close>s inside \<open>downloadPDF\<close> and \<open>findPDFOnPage\<close>. A suspended unit goes on, up
  to its next \<open>await\<close>, when the call it waits for completes; between two \<open>await\<close>s
  nothing else runs. The places where a unit waits, with what it holds there:
  \<^item> \<open>FetchDirect\<close>, \<open>BufferDirect\<close>: \<open>fetch\<close> and \<open>response.buffer()\<close> in the
    download of the direct link; \<open>ReturnDirect\<close>: that download has settled and the
    unit waits to be resumed with its result;
  \<^item> \<open>OpenTab\<close>: \<open>browser.newPage()\<close>, with the number of the context asked for;
  \<^item> \<open>GotoPage\<close>, \<open>EvaluatePage\<close>: \<open>page.goto\<close> and \<open>page.evaluate\<close>;
    \<open>ReturnScan\<close>: \<open>findPDFOnPage\<close> has settled;
  \<^item> \<open>FetchFound\<close>, \<open>BufferFound\<close>, \<open>ReturnFound\<close>: the download of the link found;
  \<^item> \<open>CloseTab\<close>: \<open>pdfTab.close()\<close> in the \<open>finally\<close>, with what the \<open>try\<close> block
    completed with.
\<close>

datatype wait =
    FetchDirect
  | BufferDirect response
  | ReturnDirect "js_error + jsstring option"
  | OpenTab nat
  | GotoPage nat
  | EvaluatePage nat paper_page
  | ReturnScan nat "jsstring option"
  | FetchFound nat jsstring
  | BufferFound nat response
  | ReturnFound nat "js_error + jsstring option"
  | CloseTab nat "js_error + outcome"

datatype task = Waiting wait | Settled "outcome settled"

text \<open>\<open>downloadPDF\<close> in its three parts: up to the call of \<open>fetch\<close>; from the answer of
  \<open>fetch\<close> to the call of \<open>response.buffer()\<close> (\<open>None\<close> when the \<open>catch\<close> is
  reached); from the body on.\<close>

definition issue_download :: "env \<Rightarrow> world \<Rightarrow> jsstring \<Rightarrow> (js_error + unit) \<times> world" where
  "issue_download e w url =
     (case ensureOutputDir e w of
        Inl err \<Rightarrow> (Inl err, w)
      | Inr w0 \<Rightarrow> (Inr (), emit (Fetch url) w0))"

definition on_fetch :: "env \<Rightarrow> jsstring \<Rightarrow> response option" where
  "on_fetch e url =
     (case http_get e url of
        FetchRejected \<Rightarrow> None
      | Response r \<Rightarrow>
          if \<not> response_ok r then None
          else if \<not> str_includes (contentType_of r) (js ''pdf'') \<and>
                  \<not> str_includes (contentType_of r) (js ''octet-stream'')
          then None
          else Some r)"

definition on_buffer :: "env \<Rightarrow> world \<Rightarrow> response \<Rightarrow> jsstring \<Rightarrow> jsstring option \<times> world" where
  "on_buffer e w r outputPath =
     (case body r of
        None \<Rightarrow> (None, w)
      | Some buf \<Rightarrow>
          if length buf < 5 \<or> ascii_slice buf 0 5 \<noteq> js ''%PDF-'' then (None, w)
          else if write_ok e outputPath
          then (Some outputPath, emit (Write outputPath) (w\<lparr>files := (files w)(outputPath \<mapsto> buf)\<rparr>))
          else (None, w))"

text \<open>How the \<open>try\<close> block of strategy B completes when the download of the link found
  has settled with \<open>x\<close>, and how the unit settles when \<open>close\<close> has been answered.\<close>

definition try_completion :: "paper \<Rightarrow> js_error + jsstring option \<Rightarrow> js_error + outcome" where
  "try_completion p x =
     (case x of
        Inl err \<Rightarrow> Inl err
      | Inr saved \<Rightarrow>
          if truthy saved then Inr (mark_downloaded (initial_result p) saved PAGE_SCAN)
          else Inr (initial_result p))"

definition closes_with :: "env \<Rightarrow> nat \<Rightarrow> js_error + outcome \<Rightarrow> outcome settled" where
  "closes_with e n c = (if close_ok e n then settle c else Rejected CloseError)"

text \<open>The \<open>finally\<close>: \<open>close\<close> is called, and the unit waits for it.\<close>

definition call_close :: "nat \<Rightarrow> js_error + outcome \<Rightarrow> world \<Rightarrow> task \<times> world" where
  "call_close n c w = (Waiting (CloseTab n c), emit (Close n) w)"

text \<open>Strategy B from its first statement: \<open>newPage\<close> is called, which takes the next
  context number.\<close>

definition enter_b :: "paper \<Rightarrow> world \<Rightarrow> task \<times> world" where
  "enter_b p w =
     (case paperUrl p of
        None \<Rightarrow> (Settled (Fulfilled (initial_result p)), w)
      | Some url \<Rightarrow>
          if url = [] then (Settled (Fulfilled (initial_result p)), w)
          else (Waiting (OpenTab (next_page w)), w\<lparr>next_page := Suc (next_page w)\<rparr>))"

text \<open>A unit from its start to its first \<open>await\<close>.\<close>

definition start :: "env \<Rightarrow> paper \<Rightarrow> world \<Rightarrow> task \<times> world" where
  "start e p w =
     (case directPdfUrl p of
        None \<Rightarrow> enter_b p w
      | Some d \<Rightarrow>
          if d = [] then enter_b p w
          else (case issue_download e w d of
                  (Inl err, w1) \<Rightarrow> (Waiting (ReturnDirect (Inl err)), w1)
                | (Inr u, w1) \<Rightarrow> (Waiting FetchDirect, w1)))"

text \<open>A waiting unit from the answer it waited for to its next \<open>await\<close>, or to its
  end. A unit waits at \<open>FetchDirect\<close> only when its paper has a direct link, and at
  \<open>OpenTab\<close> only when it has a page address: \<open>start\<close> and \<open>enter_b\<close> test them.\<close>

fun resume :: "env \<Rightarrow> paper \<Rightarrow> wait \<Rightarrow> world \<Rightarrow> task \<times> world" where
  "resume e p FetchDirect w =
     (case directPdfUrl p of
        None \<Rightarrow> (Waiting (ReturnDirect (Inr None)), w)
      | Some d \<Rightarrow>
          (case on_fetch e d of
             None \<Rightarrow> (Waiting (ReturnDirect (Inr None)), w)
           | Some r \<Rightarrow> (Waiting (BufferDirect r), w)))"
| "resume e p (BufferDirect r) w =
     (case on_buffer e w r (outputPath_of (title p)) of
        (saved, w1) \<Rightarrow> (Waiting (ReturnDirect (Inr saved)), w1))"
| "resume e p (ReturnDirect x) w =
     (case x of
        Inl err \<Rightarrow> (Settled (Rejected err), w)
      | Inr saved \<Rightarrow>
          if truthy saved
          then (Settled (Fulfilled (mark_downloaded (initial_result p) saved DIRECT_LINK)), w)
          else enter_b p w)"
| "resume e p (OpenTab n) w =
     (if \<not> new_page_ok e n then (Settled (Rejected NewPageError), w)
      else (case paperUrl p of
              None \<Rightarrow> (Waiting (GotoPage n), emit (NewPage n) w)
            | Some url \<Rightarrow> (Waiting (GotoPage n), emit (Goto n url) (emit (NewPage n) w))))"
| "resume e p (GotoPage n) w =
     (case paperUrl p of
        None \<Rightarrow> (Waiting (ReturnScan n None), w)
      | Some url \<Rightarrow>
          (case page_at e url of
             None \<Rightarrow> (Waiting (ReturnScan n None), w)
           | Some pg \<Rightarrow> (Waiting (EvaluatePage n pg), w)))"
| "resume e p (EvaluatePage n pg) w = (Waiting (ReturnScan n (scan_page pg)), w)"
| "resume e p (ReturnScan n pdfUrl) w =
     (case pdfUrl of
        None \<Rightarrow> call_close n (Inr (initial_result p)) w
      | Some u \<Rightarrow>
          if u = [] then call_close n (Inr (initial_result p)) w
          else (case issue_download e w u of
                  (Inl err, w1) \<Rightarrow> (Waiting (ReturnFound n (Inl err)), w1)
                | (Inr v, w1) \<Rightarrow> (Waiting (FetchFound n u), w1)))"
| "resume e p (FetchFound n u) w =
     (case on_fetch e u of
        None \<Rightarrow> (Waiting (ReturnFound n (Inr None)), w)
      | Some r \<Rightarrow> (Waiting (BufferFound n r), w))"
| "resume e p (BufferFound n r) w =
     (case on_buffer e w r (outputPath_of (title p)) of
        (saved, w1) \<Rightarrow> (Waiting (ReturnFound n (Inr saved)), w1))"
| "resume e p (ReturnFound n x) w = call_close n (try_completion p x) w"
| "resume e p (CloseTab n c) w = (Settled (closes_with e n c), w)"

text \<open>\<open>targets.map\<close>: the units are started in the order of the papers.\<close>

fun start_all :: "env \<Rightarrow> world \<Rightarrow> paper list \<Rightarrow> task list \<times> world" where
  "start_all e w [] = ([], w)"
| "start_all e w (p # ps) =
     (case start e p w of
        (t, w1) \<Rightarrow> (case start_all e w1 ps of (ts, w2) \<Rightarrow> (t # ts, w2)))"

text \<open>The event loop resumes the unit of index \<open>i\<close>, if there is one and it waits.\<close>

definition resume_unit ::
  "env \<Rightarrow> paper list \<Rightarrow> task list \<times> world \<Rightarrow> nat \<Rightarrow> task list \<times> world" where
  "resume_unit e ps cfg i =
     (case cfg of
        (ts, w) \<Rightarrow>
          if i < length ts \<and> i < length ps
          then (case ts ! i of
                  Settled r \<Rightarrow> (ts, w)
                | Waiting wt \<Rightarrow> (case resume e (ps ! i) wt w of (t, w1) \<Rightarrow> (ts[i := t], w1)))
          else (ts, w))"

text \<open>
  \<open>await Promise.allSettled(downloadPromises)\<close>: the units are resumed in the order
  the environment gives and then, for as long as one of them waits, in rounds; a unit
  has at most eleven \<open>await\<close>s on a path, so eleven rounds leave none waiting. Every
  order in which the pending calls can complete is a value of \<open>resume_order\<close>, and
  after an order that lets every unit settle the rounds change nothing. The array has
  the results of the units in the order of \<open>targets\<close>.
\<close>

definition rounds :: "nat \<Rightarrow> nat list" where
  "rounds n = concat (replicate 11 [0..<n])"

fun settled_of :: "task \<Rightarrow> outcome settled option" where
  "settled_of (Settled r) = Some r"
| "settled_of (Waiting wt) = None"

definition run_units :: "env \<Rightarrow> world \<Rightarrow> paper list \<Rightarrow> outcome settled list \<times> world" where
  "run_units e s targets =
     (case foldl (resume_unit e targets) (start_all e s targets)
             (resume_order e @ rounds (length targets)) of
        (ts, w) \<Rightarrow> (List.map_filter settled_of ts, w))"

subsection \<open>The aggregation and the summary\<close>

text \<open>\<open>results.forEach((r) => { if (r.status === 'fulfilled') downloadResults.push(r.value) })\<close>\<close>

fun push_fulfilled :: "outcome list \<Rightarrow> outcome settled \<Rightarrow> outcome list" where
  "push_fulfilled downloadResults (Fulfilled v) = downloadResults @ [v]"
| "push_fulfilled downloadResults (Rejected err) = downloadResults"

definition targets_of :: "paper list \<Rightarrow> jsnum \<Rightarrow> paper list" where
  "targets_of papers maxResults = array_slice papers 0 maxResults"

text \<open>Steps 3 and 4 of \<open>main\<close>, on the page the search has loaded: the list
  \<open>downloadResults\<close>, the fatal error caught by \<open>main\<close> if there is one, and the state.\<close>

definition crawl ::
  "env \<Rightarrow> world \<Rightarrow> document \<Rightarrow> jsnum \<Rightarrow> outcome list \<times> js_error option \<times> world" where
  "crawl e s d maxResults =
     (case extractResults d of
        Inl err \<Rightarrow> ([], Some err, s)
      | Inr papers \<Rightarrow>
          if length papers = 0 then ([], Some NoResultsFound, s)
          else (case run_units e s (targets_of papers maxResults) of
                  (results, s1) \<Rightarrow> (foldl push_fulfilled [] results, None, s1)))"

text \<open>The three counts \<open>printSummary\<close> prints.\<close>

record summary =
  papers_found :: nat
  pdfs_downloaded :: nat
  failed_skipped :: nat

definition printSummary :: "outcome list \<Rightarrow> summary" where
  "printSummary results =
     (let successful = filter downloaded results;
          failed = filter (\<lambda>r. \<not> downloaded r) results
      in \<lparr> papers_found = length results,
           pdfs_downloaded = length successful,
           failed_skipped = length failed \<rparr>)"

section \<open>Predicates for stating the properties\<close>

text \<open>The three checks of \<open>downloadPDF\<close>, as the source makes them, on a response
  whose body is \<open>buf\<close>.\<close>

definition accepted :: "response \<Rightarrow> buffer \<Rightarrow> bool" where
  "accepted r buf =
     (response_ok r \<and>
      (str_includes (contentType_of r) (js ''pdf'') \<or>
       str_includes (contentType_of r) (js ''octet-stream'')) \<and>
      body r = Some buf \<and> 5 \<le> length buf \<and> ascii_slice buf 0 5 = js ''%PDF-'')"

text \<open>The third check as the specification words it: the first five bytes of the body
  are the bytes of \<open>%PDF-\<close>.\<close>

definition pdf_signature :: buffer where
  "pdf_signature = [0x25, 0x50, 0x44, 0x46, 0x2D]"

definition literal_signature :: "buffer \<Rightarrow> bool" where
  "literal_signature buf = (take 5 buf = pdf_signature)"

text \<open>What the environment makes of a download and of a page scan: whether the fetch of
  \<open>url\<close> passes the checks and the file can be written, and the link the scan of the
  page at \<open>url\<close> finds.\<close>

definition fetch_succeeds :: "env \<Rightarrow> jsstring \<Rightarrow> jsstring \<Rightarrow> bool" where
  "fetch_succeeds e url filename =
     (case http_get e url of
        FetchRejected \<Rightarrow> False
      | Response r \<Rightarrow>
          (case body r of
             None \<Rightarrow> False
           | Some buf \<Rightarrow> accepted r buf \<and> write_ok e (outputPath_of filename)))"

definition found_on_page :: "env \<Rightarrow> jsstring \<Rightarrow> jsstring option" where
  "found_on_page e url = (case page_at e url of None \<Rightarrow> None | Some pg \<Rightarrow> scan_page pg)"

text \<open>The calls that \<open>s'\<close> has after those of \<open>s\<close>.\<close>

definition new_events :: "world \<Rightarrow> world \<Rightarrow> event list" where
  "new_events s s' = drop (length (events s)) (events s')"

text \<open>The two strategies, as the environment decides them: the direct link is there and
  its download succeeds; the paper page is there, its scan finds a link, and the
  download of that link succeeds. \<open>page_link\<close> is what the scan returns.\<close>

definition direct_yields :: "env \<Rightarrow> paper \<Rightarrow> bool" where
  "direct_yields e p =
     (case directPdfUrl p of
        None \<Rightarrow> False
      | Some d \<Rightarrow> d \<noteq> [] \<and> fetch_succeeds e d (title p))"

definition page_link :: "env \<Rightarrow> paper \<Rightarrow> jsstring option" where
  "page_link e p =
     (case paperUrl p of
        None \<Rightarrow> None
      | Some url \<Rightarrow> if url = [] then None else found_on_page e url)"

definition scan_yields :: "env \<Rightarrow> paper \<Rightarrow> bool" where
  "scan_yields e p =
     (case page_link e p of
        None \<Rightarrow> False
      | Some u \<Rightarrow> u \<noteq> [] \<and> fetch_succeeds e u (title p))"


text \<open>
  What a unit settles with, from each place where it can wait, when \<open>ok\<close> says that the
  output directory is there or can be made. A unit that has not yet called \<open>newPage\<close>
  settles with a result that depends on the number \<open>tab\<close> of the context it will be
  given.
\<close>

definition buffer_value :: "env \<Rightarrow> response \<Rightarrow> jsstring \<Rightarrow> jsstring option" where
  "buffer_value e r outputPath =
     (case body r of
        None \<Rightarrow> None
      | Some buf \<Rightarrow>
          if length buf < 5 \<or> ascii_slice buf 0 5 \<noteq> js ''%PDF-'' then None
          else if write_ok e outputPath then Some outputPath else None)"

definition download_value :: "env \<Rightarrow> jsstring \<Rightarrow> jsstring \<Rightarrow> jsstring option" where
  "download_value e url outputPath =
     (case on_fetch e url of None \<Rightarrow> None | Some r \<Rightarrow> buffer_value e r outputPath)"

definition after_scan :: "env \<Rightarrow> bool \<Rightarrow> paper \<Rightarrow> jsstring option \<Rightarrow> js_error + outcome" where
  "after_scan e ok p pdfUrl =
     (case pdfUrl of
        None \<Rightarrow> Inr (initial_result p)
      | Some u \<Rightarrow>
          if u = [] then Inr (initial_result p)
          else if \<not> ok then Inl MkdirError
          else try_completion p (Inr (download_value e u (outputPath_of (title p)))))"

definition scan_of :: "env \<Rightarrow> paper \<Rightarrow> jsstring option" where
  "scan_of e p = (case paperUrl p of None \<Rightarrow> None | Some url \<Rightarrow> found_on_page e url)"

definition opens_with :: "env \<Rightarrow> bool \<Rightarrow> paper \<Rightarrow> nat \<Rightarrow> outcome settled" where
  "opens_with e ok p n =
     (if new_page_ok e n then closes_with e n (after_scan e ok p (scan_of e p))
      else Rejected NewPageError)"

definition strategy_b_result :: "env \<Rightarrow> bool \<Rightarrow> paper \<Rightarrow> nat \<Rightarrow> outcome settled" where
  "strategy_b_result e ok p tab =
     (if truthy (paperUrl p) then opens_with e ok p tab else Fulfilled (initial_result p))"

definition after_direct ::
  "env \<Rightarrow> bool \<Rightarrow> paper \<Rightarrow> nat \<Rightarrow> js_error + jsstring option \<Rightarrow> outcome settled" where
  "after_direct e ok p tab x =
     (case x of
        Inl err \<Rightarrow> Rejected err
      | Inr saved \<Rightarrow>
          if truthy saved
          then Fulfilled (mark_downloaded (initial_result p) saved DIRECT_LINK)
          else strategy_b_result e ok p tab)"

fun settles_with :: "env \<Rightarrow> bool \<Rightarrow> paper \<Rightarrow> nat \<Rightarrow> wait \<Rightarrow> outcome settled" where
  "settles_with e ok p tab FetchDirect =
     after_direct e ok p tab
       (Inr (case directPdfUrl p of
               None \<Rightarrow> None
             | Some d \<Rightarrow> download_value e d (outputPath_of (title p))))"
| "settles_with e ok p tab (BufferDirect r) =
     after_direct e ok p tab (Inr (buffer_value e r (outputPath_of (title p))))"
| "settles_with e ok p tab (ReturnDirect x) = after_direct e ok p tab x"
| "settles_with e ok p tab (OpenTab n) = opens_with e ok p n"
| "settles_with e ok p tab (GotoPage n) = closes_with e n (after_scan e ok p (scan_of e p))"
| "settles_with e ok p tab (EvaluatePage n pg) = closes_with e n (after_scan e ok p (scan_page pg))"
| "settles_with e ok p tab (ReturnScan n pdfUrl) = closes_with e n (after_scan e ok p pdfUrl)"
| "settles_with e ok p tab (FetchFound n u) =
     closes_with e n (try_completion p (Inr (download_value e u (outputPath_of (title p)))))"
| "settles_with e ok p tab (BufferFound n r) =
     closes_with e n (try_completion p (Inr (buffer_value e r (outputPath_of (title p)))))"
| "settles_with e ok p tab (ReturnFound n x) = closes_with e n (try_completion p x)"
| "settles_with e ok p tab (CloseTab n c) = closes_with e n c"

fun task_settles_with :: "env \<Rightarrow> bool \<Rightarrow> paper \<Rightarrow> nat \<Rightarrow> task \<Rightarrow> outcome settled" where
  "task_settles_with e ok p tab (Waiting wt) = settles_with e ok p tab wt"
| "task_settles_with e ok p tab (Settled r) = r"

text \<open>The result of a unit from its start.\<close>

definition unit_result :: "env \<Rightarrow> bool \<Rightarrow> paper \<Rightarrow> nat \<Rightarrow> outcome settled" where
  "unit_result e ok p tab =
     (case directPdfUrl p of
        None \<Rightarrow> strategy_b_result e ok p tab
      | Some d \<Rightarrow>
          if d = [] then strategy_b_result e ok p tab
          else if \<not> ok then Rejected MkdirError
          else after_direct e ok p tab (Inr (download_value e d (outputPath_of (title p)))))"

text \<open>The number of \<open>await\<close>s a unit still has before it, at most.\<close>

fun steps_left :: "task \<Rightarrow> nat" where
  "steps_left (Settled r) = 0"
| "steps_left (Waiting (CloseTab n c)) = 1"
| "steps_left (Waiting (ReturnFound n x)) = 2"
| "steps_left (Waiting (BufferFound n r)) = 3"
| "steps_left (Waiting (FetchFound n u)) = 4"
| "steps_left (Waiting (ReturnScan n x)) = 5"
| "steps_left (Waiting (EvaluatePage n pg)) = 6"
| "steps_left (Waiting (GotoPage n)) = 7"
| "steps_left (Waiting (OpenTab n)) = 8"
| "steps_left (Waiting (ReturnDirect x)) = 9"
| "steps_left (Waiting (BufferDirect r)) = 10"
| "steps_left (Waiting FetchDirect) = 11"




text \<open>The calls that open and close a browsing context.\<close>

fun is_tab_call :: "event \<Rightarrow> bool" where
  "is_tab_call (NewPage n) = True"
| "is_tab_call (Close n) = True"
| "is_tab_call ev = False"

section \<open>Example inputs\<close>

definition pdf_response :: "buffer \<Rightarrow> fetch_result" where
  "pdf_response buf =
     Response \<lparr> status = 200, content_type = Some (js ''application/pdf''), body = Some buf \<rparr>"

definition html_response :: fetch_result where
  "html_response =
     Response \<lparr> status = 200, content_type = Some (js ''text/html''),
                body = Some [0x3C, 0x68, 0x74, 0x6D, 0x6C, 0x3E] \<rparr>"

definition pdf_bytes :: buffer where
  "pdf_bytes = [0x25, 0x50, 0x44, 0x46, 0x2D, 0x31, 0x2E, 0x34]"

text \<open>An environment in which the directory can be made, files can be written and
  browsing contexts open and close, with the given answers of the network and of the
  paper pages; the units are resumed in rounds, in the order of their papers.\<close>

definition env_with ::
  "(jsstring \<Rightarrow> fetch_result) \<Rightarrow> (jsstring \<Rightarrow> paper_page option) \<Rightarrow> env" where
  "env_with net pages =
     \<lparr> http_get = net, mkdir_ok = True, write_ok = (\<lambda>p. True),
       new_page_ok = (\<lambda>n. True), page_at = pages, close_ok = (\<lambda>n. True),
       resume_order = [] \<rparr>"

definition fresh_world :: world where
  "fresh_world = \<lparr> dir_exists = False, files = (\<lambda>p. None), next_page = 0, events = [] \<rparr>"

definition paper_a :: paper where
  "paper_a = \<lparr> title = js ''Paper A'', paperUrl = Some (js ''http://site/a''),
               directPdfUrl = Some (js ''http://host/a.pdf''), meta = [] \<rparr>"

definition paper_b :: paper where
  "paper_b = \<lparr> title = js ''Paper B'', paperUrl = Some (js ''http://site/b''),
               directPdfUrl = None, meta = [] \<rparr>"

definition page_with_link :: "jsstring \<Rightarrow> paper_page option" where
  "page_with_link url =
     Some \<lparr> selector_hits = [Some (js ''http://site/b.pdf'')], link_hrefs = [] \<rparr>"

text \<open>A network that answers the direct link of \<open>paper_a\<close> with a web page and every
  other address with a PDF.\<close>

definition direct_blocked :: "jsstring \<Rightarrow> fetch_result" where
  "direct_blocked url =
     (if url = js ''http://host/a.pdf'' then html_response else pdf_response pdf_bytes)"

text \<open>A results page with three result blocks: the first has its PDF link in the slot
  beside the title, the second has none, the third has no title and a \<open>[PDF]\<close> badge
  among its links.\<close>

definition paper_c :: paper where
  "paper_c = \<lparr> title = js ''Unknown Title'', paperUrl = None,
               directPdfUrl = Some (js ''http://host/c.pdf''), meta = [] \<rparr>"

definition results_page :: document where
  "results_page =
     \<lparr> doc_title = js ''pdf - Google Scholar'',
       has_captcha_form = False, has_recaptcha = False, has_results_container = True,
       items =
         [\<lparr> titleEl = Some \<lparr> textContent = js '' Paper A '', href = js ''http://site/a'' \<rparr>,
            metaEl = None,
            pdfLinkEl = Some \<lparr> textContent = js ''[PDF] host'', href = js ''http://host/a.pdf'' \<rparr>,
            allLinks = [] \<rparr>,
          \<lparr> titleEl = Some \<lparr> textContent = js ''Paper B'', href = js ''http://site/b'' \<rparr>,
            metaEl = None, pdfLinkEl = None,
            allLinks = [\<lparr> textContent = js ''Paper B'', href = js ''http://site/b'' \<rparr>] \<rparr>,
          \<lparr> titleEl = None, metaEl = None, pdfLinkEl = None,
            allLinks = [\<lparr> textContent = js '' [PDF] '', href = js ''http://host/c.pdf'' \<rparr>] \<rparr>] \<rparr>"

definition captcha_page :: document where
  "captcha_page = results_page\<lparr>doc_title := js ''Solve the CAPTCHA''\<rparr>"

section \<open>Sanitization\<close>

lemma safe_char_not_ws: "safe_char c \<Longrightarrow> \<not> is_ws c"
  by (auto simp: safe_char_def is_alnum_def is_ws_def Let_def)

lemma replace_ws_no_ws: "list_all (\<lambda>c. \<not> is_ws c) s \<Longrightarrow> replace_ws s = s"
  by (induction s) auto

lemma replace_ws_safe: "list_all in_kept_class s \<Longrightarrow> list_all safe_char (replace_ws s)"
proof (induction s rule: replace_ws.induct)
  case 1
  then show ?case by simp
next
  case (2 c cs)
  have rest: "list_all in_kept_class (dropWhile is_ws cs)"
    using "2.prems" by (auto simp: list_all_iff dest: set_dropWhileD)
  show ?case
  proof (cases "is_ws c")
    case True
    then show ?thesis using "2.IH"(1) rest by (simp add: safe_char_def)
  next
    case False
    then show ?thesis using "2.IH"(2) "2.prems"
      by (auto simp: safe_char_def in_kept_class_def)
  qed
qed

lemma sanitizeFilename_pipeline:
  "sanitizeFilename x = take 80 (replace_ws (filter in_kept_class x))"
  by (simp add: sanitizeFilename_def substring_def strip_unsafe_def)

lemma sanitizeFilename_safe: "list_all safe_char (sanitizeFilename x)"
proof -
  have "list_all in_kept_class (filter in_kept_class x)"
    by (simp add: list_all_iff)
  then have "list_all safe_char (replace_ws (filter in_kept_class x))"
    by (rule replace_ws_safe)
  then show ?thesis
    by (auto simp: sanitizeFilename_pipeline list_all_iff dest: in_set_takeD)
qed

lemma sanitizeFilename_length: "length (sanitizeFilename x) \<le> 80"
  by (simp add: sanitizeFilename_pipeline)

lemma sanitizeFilename_fixpoint:
  assumes "list_all safe_char s" and "length s \<le> 80"
  shows "sanitizeFilename s = s"
proof -
  have "\<forall>c \<in> set s. in_kept_class c"
    using assms(1) by (auto simp: list_all_iff safe_char_def in_kept_class_def)
  then have kept: "filter in_kept_class s = s"
    by (rule filter_True)
  have "list_all (\<lambda>c. \<not> is_ws c) s"
    using assms(1) by (auto simp: list_all_iff dest: safe_char_not_ws)
  then have "replace_ws s = s" by (rule replace_ws_no_ws)
  then show ?thesis using kept assms(2) by (simp add: sanitizeFilename_pipeline)
qed

lemma spaces_only_filter:
  assumes "\<forall>c \<in> set x. is_ws c \<longrightarrow> c = 0x20"
  shows "filter in_kept_class x = filter in_spec_class x"
proof (rule filter_cong [OF refl])
  fix c assume "c \<in> set x"
  with assms have "is_ws c \<longrightarrow> c = 0x20" by blast
  moreover have "is_ws (0x20 :: code_unit)" by (simp add: is_ws_def)
  ultimately show "in_kept_class c = in_spec_class c"
    by (auto simp: in_kept_class_def in_spec_class_def)
qed

text \<open>
  Claim C7, as amended. Sanitization is idempotent and its result matches
  \<open>[A-Za-z0-9_-]{0,80}\<close>. The characters that the first replacement keeps are those of
  \<open>[A-Za-z0-9_-]\<close> and every whitespace character of the class \<open>\s\<close> (tab, line
  breaks, no-break space and the others, not the space alone); each run of them becomes
  one underscore, and the result is cut to 80 code units. On a name whose only
  whitespace is the space, this is the sanitization as the specification words it.
\<close>

theorem sanitizeFilename_idempotent:
  "sanitizeFilename (sanitizeFilename x) = sanitizeFilename x \<and>
   list_all safe_char (sanitizeFilename x) \<and>
   length (sanitizeFilename x) \<le> 80 \<and>
   sanitizeFilename x = take 80 (replace_ws (filter in_kept_class x)) \<and>
   (list_all (\<lambda>c. is_ws c \<longrightarrow> c = 0x20) x \<longrightarrow> sanitizeFilename x = sanitize_spec x)"
proof -
  have "sanitizeFilename (sanitizeFilename x) = sanitizeFilename x"
    by (rule sanitizeFilename_fixpoint [OF sanitizeFilename_safe sanitizeFilename_length])
  moreover have "sanitizeFilename x = sanitize_spec x"
    if "list_all (\<lambda>c. is_ws c \<longrightarrow> c = 0x20) x"
  proof -
    from that have "\<forall>c \<in> set x. is_ws c \<longrightarrow> c = 0x20" by (simp add: list_all_iff)
    then have "filter in_kept_class x = filter in_spec_class x" by (rule spaces_only_filter)
    then show ?thesis by (simp add: sanitizeFilename_pipeline sanitize_spec_def)
  qed
  ultimately show ?thesis
    using sanitizeFilename_safe [of x] sanitizeFilename_length [of x]
      sanitizeFilename_pipeline [of x] by blast
qed

text \<open>
  Claim C7 at the title \<open>Deep  learning: a (re)view\<close>, whose whitespace is spaces
  only: the code and the wording of the specification both give
  \<open>Deep_learning_a_review\<close>, which sanitization leaves as it is.
\<close>

theorem sanitizeFilename_idempotent_witness:
  "sanitizeFilename (js ''Deep  learning: a (re)view'') = js ''Deep_learning_a_review'' \<and>
   sanitize_spec (js ''Deep  learning: a (re)view'') = js ''Deep_learning_a_review'' \<and>
   sanitizeFilename (js ''Deep_learning_a_review'') = js ''Deep_learning_a_review''"
proof -
  have v: "sanitizeFilename (js ''Deep  learning: a (re)view'') = js ''Deep_learning_a_review''"
    by (simp add: sanitizeFilename_pipeline in_kept_class_def is_alnum_def is_ws_def js_def)
  have h: "list_all (\<lambda>c. is_ws c \<longrightarrow> c = 0x20) (js ''Deep  learning: a (re)view'')"
    by (simp add: is_ws_def js_def)
  note inst = sanitizeFilename_idempotent [of "js ''Deep  learning: a (re)view''"]
  from inst h have spec: "sanitizeFilename (js ''Deep  learning: a (re)view'') =
      sanitize_spec (js ''Deep  learning: a (re)view'')"
    by blast
  from inst have "sanitizeFilename (sanitizeFilename (js ''Deep  learning: a (re)view'')) =
      sanitizeFilename (js ''Deep  learning: a (re)view'')"
    by blast
  then have idem: "sanitizeFilename (js ''Deep_learning_a_review'') = js ''Deep_learning_a_review''"
    by (simp only: v)
  from spec v have "sanitize_spec (js ''Deep  learning: a (re)view'') = js ''Deep_learning_a_review''"
    by simp
  with v idem show ?thesis by blast
qed

text \<open>
  Claim C7 as the specification words it fails on a title with a tab: the code keeps
  the tab in the first replacement and turns it into an underscore, where stripping
  every character outside \<open>[A-Za-z0-9 _-]\<close> removes it.
\<close>

theorem sanitize_tab_counterexample:
  "sanitizeFilename [0x61, 0x09, 0x62] = js ''a_b'' \<and>
   sanitize_spec [0x61, 0x09, 0x62] = js ''ab'' \<and>
   sanitizeFilename [0x61, 0x09, 0x62] \<noteq> sanitize_spec [0x61, 0x09, 0x62]"
  by (simp add: sanitizeFilename_pipeline sanitize_spec_def in_kept_class_def in_spec_class_def
      is_alnum_def is_ws_def js_def)

section \<open>The output path\<close>

lemma split_on_no_sep: "sep \<notin> set w \<Longrightarrow> split_on sep w = [w]"
  by (induction w) auto

lemma split_on_append: "sep \<notin> set w \<Longrightarrow> split_on sep (w @ sep # rest) = w # split_on sep rest"
  by (induction w) auto

lemma safe_char_facts: "safe_char c \<Longrightarrow> c \<noteq> 0x2F \<and> c \<noteq> 0x5C \<and> c \<noteq> 0x2E"
  by (auto simp: safe_char_def is_alnum_def)

lemma sanitizeFilename_no_separator:
  "0x2F \<notin> set (sanitizeFilename t) \<and> 0x5C \<notin> set (sanitizeFilename t) \<and>
   0x2E \<notin> set (sanitizeFilename t)"
  using sanitizeFilename_safe [of t] by (auto simp: list_all_iff dest: safe_char_facts)

lemma split_output_path:
  assumes "0x2F \<notin> set w"
  shows "split_on 0x2F (js ''./output/pdfs'' @ 0x2F # w) = [js ''.'', js ''output'', js ''pdfs'', w]"
  using assms by (simp add: split_on_no_sep js_def)

lemma path_join_output:
  assumes "0x2F \<notin> set w" and "w \<noteq> []" and "w \<noteq> js ''.''" and "w \<noteq> js ''..''"
  shows "path_join OUTPUT_DIR w = js ''output/pdfs/'' @ w"
proof -
  have segs: "foldl (push_segment True) [] [js ''.'', js ''output'', js ''pdfs'', w] =
      [js ''output'', js ''pdfs'', w]"
    using assms by (simp add: push_segment_def js_def)
  have "normalizeString (js ''./output/pdfs'' @ 0x2F # w) True =
      join_segments [js ''output'', js ''pdfs'', w]"
    unfolding normalizeString_def split_output_path [OF assms(1)] segs ..
  then have "normalizeString (js ''./output/pdfs'' @ 0x2F # w) True = js ''output/pdfs/'' @ w"
    by (simp add: js_def)
  moreover have "last w \<noteq> 0x2F"
    using assms(1,2) by (metis last_in_set)
  ultimately show ?thesis
    using assms(2) by (simp add: path_join_def OUTPUT_DIR_def normalize_def js_def Let_def)
qed

lemma outputPath_of_eq:
  "outputPath_of t = js ''output/pdfs/'' @ sanitizeFilename t @ js ''.pdf''"
proof -
  let ?w = "sanitizeFilename t @ js ''.pdf''"
  have "0x2F \<notin> set ?w"
    using sanitizeFilename_no_separator [of t] by (simp add: js_def)
  moreover have "?w \<noteq> []" by (simp add: js_def)
  moreover have "length ?w \<ge> 4" by (simp add: js_def)
  then have "?w \<noteq> js ''.''" and "?w \<noteq> js ''..''" by (auto simp: js_def)
  ultimately have "path_join OUTPUT_DIR ?w = js ''output/pdfs/'' @ ?w"
    by (rule path_join_output)
  then show ?thesis by (simp add: outputPath_of_def)
qed

section \<open>downloadPDF\<close>

lemma try_download_Inr:
  assumes "try_download e s url path = (Inr p, s')"
  shows "p = path \<and> write_ok e path \<and>
    (\<exists>r buf. http_get e url = Response r \<and> accepted r buf \<and>
       s' = emit (Write path) ((emit (Fetch url) s)\<lparr>files := (files s)(path \<mapsto> buf)\<rparr>))"
  using assms
  by (auto simp: try_download_def accepted_def emit_def Let_def
      split: fetch_result.splits option.splits if_splits)

lemma try_download_Inl:
  assumes "try_download e s url path = (Inl err, s')"
  shows "s' = emit (Fetch url) s"
  using assms
  by (auto simp: try_download_def Let_def split: fetch_result.splits option.splits if_splits)

lemma try_download_succeeds:
  assumes "http_get e url = Response r" and "accepted r buf" and "write_ok e path"
  shows "try_download e s url path =
    (Inr path, emit (Write path) ((emit (Fetch url) s)\<lparr>files := (files s)(path \<mapsto> buf)\<rparr>))"
  using assms by (simp add: try_download_def accepted_def emit_def Let_def)

lemma try_download_fails:
  assumes "\<not> (\<exists>r buf. http_get e url = Response r \<and> accepted r buf \<and> write_ok e path)"
  shows "\<exists>err. try_download e s url path = (Inl err, emit (Fetch url) s)"
  using assms
  by (auto simp: try_download_def accepted_def Let_def split: fetch_result.splits option.splits)

lemma fetch_succeeds_iff:
  "fetch_succeeds e url t \<longleftrightarrow>
   (\<exists>r buf. http_get e url = Response r \<and> accepted r buf \<and> write_ok e (outputPath_of t))"
  by (auto simp: fetch_succeeds_def accepted_def split: fetch_result.splits option.splits)

text \<open>The three ways \<open>downloadPDF\<close> ends.\<close>

lemma downloadPDF_mkdir_fails:
  assumes "\<not> dir_exists s" and "\<not> mkdir_ok e"
  shows "downloadPDF e s url t = (Inl MkdirError, s)"
  using assms by (simp add: downloadPDF_def ensureOutputDir_def)

lemma downloadPDF_saves:
  assumes "dir_exists s \<or> mkdir_ok e"
    and "http_get e url = Response r" and "accepted r buf" and "write_ok e (outputPath_of t)"
  shows "downloadPDF e s url t =
    (Inr (Some (outputPath_of t)),
     emit (Write (outputPath_of t))
       ((emit (Fetch url) (s\<lparr>dir_exists := True\<rparr>))\<lparr>files := (files s)(outputPath_of t \<mapsto> buf)\<rparr>))"
proof (cases "dir_exists s")
  case True
  then have same: "s\<lparr>dir_exists := True\<rparr> = s" by simp
  show ?thesis
    using True try_download_succeeds [OF assms(2,3,4), of s]
    by (simp add: downloadPDF_def ensureOutputDir_def same)
next
  case False
  then show ?thesis
    using assms(1) try_download_succeeds [OF assms(2,3,4), of "s\<lparr>dir_exists := True\<rparr>"]
    by (simp add: downloadPDF_def ensureOutputDir_def)
qed

lemma downloadPDF_null:
  assumes "dir_exists s \<or> mkdir_ok e" and "\<not> fetch_succeeds e url t"
  shows "downloadPDF e s url t = (Inr None, emit (Fetch url) (s\<lparr>dir_exists := True\<rparr>))"
proof -
  from assms(2) have no: "\<not> (\<exists>r buf. http_get e url = Response r \<and> accepted r buf \<and>
      write_ok e (outputPath_of t))"
    by (simp add: fetch_succeeds_iff)
  show ?thesis
  proof (cases "dir_exists s")
    case True
    then have same: "s\<lparr>dir_exists := True\<rparr> = s" by simp
    from try_download_fails [OF no, of s] True show ?thesis
      by (auto simp: downloadPDF_def ensureOutputDir_def same)
  next
    case False
    with assms(1) try_download_fails [OF no, of "s\<lparr>dir_exists := True\<rparr>"] show ?thesis
      by (auto simp: downloadPDF_def ensureOutputDir_def)
  qed
qed

lemma downloadPDF_cases:
  obtains (mkdir) "\<not> dir_exists s" "\<not> mkdir_ok e" "downloadPDF e s url t = (Inl MkdirError, s)"
  | (saved) r buf where "dir_exists s \<or> mkdir_ok e" "fetch_succeeds e url t"
      "http_get e url = Response r" "accepted r buf"
      "downloadPDF e s url t =
        (Inr (Some (outputPath_of t)),
         emit (Write (outputPath_of t))
           ((emit (Fetch url) (s\<lparr>dir_exists := True\<rparr>))\<lparr>files := (files s)(outputPath_of t \<mapsto> buf)\<rparr>))"
  | (null) "dir_exists s \<or> mkdir_ok e" "\<not> fetch_succeeds e url t"
      "downloadPDF e s url t = (Inr None, emit (Fetch url) (s\<lparr>dir_exists := True\<rparr>))"
proof (cases "dir_exists s \<or> mkdir_ok e")
  case False
  then show ?thesis using mkdir downloadPDF_mkdir_fails by blast
next
  case ok: True
  show ?thesis
  proof (cases "fetch_succeeds e url t")
    case True
    then obtain r buf where "http_get e url = Response r" "accepted r buf"
        "write_ok e (outputPath_of t)"
      by (auto simp: fetch_succeeds_iff)
    then show ?thesis using saved [OF ok True] downloadPDF_saves [OF ok] by blast
  next
    case False
    then show ?thesis using null [OF ok] downloadPDF_null [OF ok] by blast
  qed
qed


lemma downloadPDF_files:
  "p \<noteq> outputPath_of t \<Longrightarrow> files (snd (downloadPDF e s url t)) p = files s p"
  by (cases rule: downloadPDF_cases [of s e url t]) (simp_all add: emit_def)

lemma downloadPDF_new_events:
  "new_events s (snd (downloadPDF e s url t)) \<in>
     {[], [Fetch url], [Fetch url, Write (outputPath_of t)]}"
  by (cases rule: downloadPDF_cases [of s e url t]) (simp_all add: emit_def new_events_def)

lemma downloadPDF_events:
  "events (snd (downloadPDF e s url t)) = events s @ new_events s (snd (downloadPDF e s url t))"
  by (cases rule: downloadPDF_cases [of s e url t]) (simp_all add: emit_def new_events_def)

lemma downloadPDF_next_page: "next_page (snd (downloadPDF e s url t)) = next_page s"
  by (cases rule: downloadPDF_cases [of s e url t]) (simp_all add: emit_def)

lemma downloadPDF_dir:
  "dir_exists s \<or> mkdir_ok e \<Longrightarrow> dir_exists (snd (downloadPDF e s url t))"
  by (cases rule: downloadPDF_cases [of s e url t]) (simp_all add: emit_def)

lemma outputPath_of_nonempty: "outputPath_of t \<noteq> []"
  by (simp add: outputPath_of_eq js_def)

text \<open>What holds of claim C2: a path is returned only when the checks of the source
  pass, and then the body is in the file of that path; a response that fails a check
  gives \<open>null\<close> and changes no file; the only exception that leaves \<open>downloadPDF\<close> is
  that of \<open>mkdirSync\<close>, raised before the request is made.\<close>

lemma downloadPDF_saved_only_if_accepted:
  assumes "fst (downloadPDF e s url t) = Inr (Some p)"
  shows "p = outputPath_of t \<and>
    (\<exists>r buf. http_get e url = Response r \<and> accepted r buf \<and>
       files (snd (downloadPDF e s url t)) p = Some buf)"
  using assms by (cases rule: downloadPDF_cases [of s e url t]) (auto simp: emit_def)

lemma downloadPDF_rejection_is_local:
  assumes "http_get e url = Response r" and "\<forall>buf. \<not> accepted r buf"
  shows "(fst (downloadPDF e s url t) = Inr None \<or> fst (downloadPDF e s url t) = Inl MkdirError) \<and>
    files (snd (downloadPDF e s url t)) = files s"
  using assms
  by (cases rule: downloadPDF_cases [of s e url t]) (auto simp: emit_def fetch_succeeds_iff)

lemma downloadPDF_throws_only_mkdir:
  assumes "fst (downloadPDF e s url t) = Inl err"
  shows "err = MkdirError \<and> snd (downloadPDF e s url t) = s"
  using assms by (cases rule: downloadPDF_cases [of s e url t]) auto

text \<open>
  Claim C2 fails on a body whose first bytes are those of \<open>%PDF-\<close> with the highest bit
  set in the first one: the five bytes are not the signature, yet the comparison of the
  source, made on the \<open>'ascii'\<close> decoding, passes; the file is written and its path
  returned.
\<close>

theorem downloadPDF_high_bit_signature:
  "\<not> literal_signature [0xA5, 0x50, 0x44, 0x46, 0x2D] \<and>
   fst (downloadPDF (env_with (\<lambda>u. pdf_response [0xA5, 0x50, 0x44, 0x46, 0x2D]) (\<lambda>u. None))
          fresh_world (js ''http://host/a'') (js ''t'')) = Inr (Some (js ''output/pdfs/t.pdf'')) \<and>
   files (snd (downloadPDF (env_with (\<lambda>u. pdf_response [0xA5, 0x50, 0x44, 0x46, 0x2D]) (\<lambda>u. None))
          fresh_world (js ''http://host/a'') (js ''t''))) (js ''output/pdfs/t.pdf'') =
     Some [0xA5, 0x50, 0x44, 0x46, 0x2D]"
proof -
  let ?buf = "[0xA5, 0x50, 0x44, 0x46, 0x2D] :: buffer"
  let ?r = "\<lparr> status = 200, content_type = Some (js ''application/pdf''), body = Some ?buf \<rparr>"
  let ?e = "env_with (\<lambda>u. pdf_response ?buf) (\<lambda>u. None)"
  have path: "outputPath_of (js ''t'') = js ''output/pdfs/t.pdf''"
    by (simp add: outputPath_of_eq sanitizeFilename_pipeline in_kept_class_def is_alnum_def
        is_ws_def js_def)
  have "http_get ?e (js ''http://host/a'') = Response ?r"
    by (simp add: env_with_def pdf_response_def)
  moreover have "accepted ?r ?buf"
    by (simp add: accepted_def response_ok_def contentType_of_def ascii_slice_def js_def)
  moreover have "write_ok ?e (outputPath_of (js ''t''))" and "dir_exists fresh_world \<or> mkdir_ok ?e"
    by (simp_all add: env_with_def)
  ultimately have "downloadPDF ?e fresh_world (js ''http://host/a'') (js ''t'') =
      (Inr (Some (outputPath_of (js ''t''))),
       emit (Write (outputPath_of (js ''t'')))
         ((emit (Fetch (js ''http://host/a'')) (fresh_world\<lparr>dir_exists := True\<rparr>))
            \<lparr>files := (files fresh_world)(outputPath_of (js ''t'') \<mapsto> ?buf)\<rparr>))"
    by (simp add: downloadPDF_saves)
  moreover have "\<not> literal_signature ?buf"
    by (simp add: literal_signature_def pdf_signature_def)
  ultimately show ?thesis by (simp add: path emit_def)
qed

text \<open>
  Claim C10. The sanitized name holds no \<open>/\<close>, no \<open>\\<close> and no \<open>.\<close>; the path
  \<open>downloadPDF\<close> computes is the output directory, the sanitized name and \<open>.pdf\<close>;
  whatever the title, the address and the answers of the environment, no other file
  changes and no other path is written.
\<close>

theorem output_path_confined:
  "0x2F \<notin> set (sanitizeFilename t) \<and> 0x5C \<notin> set (sanitizeFilename t) \<and>
   0x2E \<notin> set (sanitizeFilename t) \<and>
   outputPath_of t = js ''output/pdfs/'' @ sanitizeFilename t @ js ''.pdf'' \<and>
   (\<forall>p. p \<noteq> outputPath_of t \<longrightarrow> files (snd (downloadPDF e s url t)) p = files s p) \<and>
   (\<forall>p. Write p \<in> set (new_events s (snd (downloadPDF e s url t))) \<longrightarrow> p = outputPath_of t)"
proof -
  have "\<forall>p. Write p \<in> set (new_events s (snd (downloadPDF e s url t))) \<longrightarrow> p = outputPath_of t"
    using downloadPDF_new_events [of s e url t] by auto
  then show ?thesis
    using sanitizeFilename_no_separator [of t] outputPath_of_eq [of t] downloadPDF_files [of _ t e s url]
    by blast
qed

text \<open>
  Claim C10 at the title \<open>../../etc/passwd\<close>, with a server that sends a PDF: the file
  written is \<open>output/pdfs/etcpasswd.pdf\<close>, and \<open>../../etc/passwd.pdf\<close> is not touched.
\<close>

theorem output_path_confined_witness:
  "outputPath_of (js ''../../etc/passwd'') = js ''output/pdfs/etcpasswd.pdf'' \<and>
   files (snd (downloadPDF (env_with (\<lambda>u. pdf_response pdf_bytes) (\<lambda>u. None)) fresh_world
           (js ''http://host/a'') (js ''../../etc/passwd''))) (js ''../../etc/passwd.pdf'') = None"
proof -
  let ?t = "js ''../../etc/passwd''"
  note inst = output_path_confined [of ?t "env_with (\<lambda>u. pdf_response pdf_bytes) (\<lambda>u. None)"
      fresh_world "js ''http://host/a''"]
  have name: "sanitizeFilename ?t = js ''etcpasswd''"
    by (simp add: sanitizeFilename_pipeline in_kept_class_def is_alnum_def is_ws_def js_def)
  from inst have "outputPath_of ?t = js ''output/pdfs/'' @ sanitizeFilename ?t @ js ''.pdf''"
    by blast
  moreover have "js ''output/pdfs/'' @ js ''etcpasswd'' @ js ''.pdf'' = js ''output/pdfs/etcpasswd.pdf''"
    by (simp add: js_def)
  ultimately have path: "outputPath_of ?t = js ''output/pdfs/etcpasswd.pdf''"
    by (simp only: name)
  have "js ''../../etc/passwd.pdf'' \<noteq> js ''output/pdfs/etcpasswd.pdf''"
    by (simp add: js_def)
  then have "js ''../../etc/passwd.pdf'' \<noteq> outputPath_of ?t"
    by (simp add: path)
  with inst have "files (snd (downloadPDF (env_with (\<lambda>u. pdf_response pdf_bytes) (\<lambda>u. None))
      fresh_world (js ''http://host/a'') ?t)) (js ''../../etc/passwd.pdf'') =
      files fresh_world (js ''../../etc/passwd.pdf'')"
    by blast
  with path show ?thesis by (simp add: fresh_world_def)
qed

section \<open>The download of one paper\<close>

lemma emit_fields [simp]:
  "dir_exists (emit ev s) = dir_exists s"
  "files (emit ev s) = files s"
  "next_page (emit ev s) = next_page s"
  "events (emit ev s) = events s @ [ev]"
  by (simp_all add: emit_def)

lemma truthy_Some [simp]: "truthy (Some u) \<longleftrightarrow> u \<noteq> []"
  by (simp add: truthy_def)

lemma truthy_None [simp]: "\<not> truthy None"
  by (simp add: truthy_def)

lemma downloadPDF_value:
  "fst (downloadPDF e s url t) =
     (if \<not> (dir_exists s \<or> mkdir_ok e) then Inl MkdirError
      else if fetch_succeeds e url t then Inr (Some (outputPath_of t)) else Inr None)"
  by (cases rule: downloadPDF_cases [of s e url t]) auto

lemma downloadPDF_dir_mono: "dir_exists s \<Longrightarrow> dir_exists (snd (downloadPDF e s url t))"
  by (simp add: downloadPDF_dir)

lemma findPDFOnPage_eq:
  "findPDFOnPage e s tab url = (found_on_page e url, emit (Goto tab url) s)"
  by (simp add: findPDFOnPage_def found_on_page_def Let_def split: option.splits)

lemma scan_and_download_value:
  "fst (scan_and_download e s tab p url r) =
     (if \<not> truthy (found_on_page e url) then Inr r
      else if \<not> (dir_exists s \<or> mkdir_ok e) then Inl MkdirError
      else if fetch_succeeds e (the (found_on_page e url)) (title p)
      then Inr (mark_downloaded r (Some (outputPath_of (title p))) PAGE_SCAN)
      else Inr r)"
proof (cases "found_on_page e url")
  case None
  then show ?thesis by (simp add: scan_and_download_def findPDFOnPage_eq)
next
  case (Some u)
  show ?thesis
  proof (cases "u = []")
    case True
    with Some show ?thesis by (simp add: scan_and_download_def findPDFOnPage_eq)
  next
    case False
    have "fst (downloadPDF e (emit (Goto tab url) s) u (title p)) =
        (if \<not> (dir_exists s \<or> mkdir_ok e) then Inl MkdirError
         else if fetch_succeeds e u (title p) then Inr (Some (outputPath_of (title p)))
         else Inr None)"
      by (simp add: downloadPDF_value)
    with Some False show ?thesis
      by (cases "downloadPDF e (emit (Goto tab url) s) u (title p)")
        (auto simp: scan_and_download_def findPDFOnPage_eq outputPath_of_nonempty
          split: sum.splits if_splits)
  qed
qed


lemma strategy_b_value:
  "fst (strategy_b e s p r) =
     (if \<not> truthy (paperUrl p) then Inr r
      else if \<not> new_page_ok e (next_page s) then Inl NewPageError
      else if \<not> close_ok e (next_page s) then Inl CloseError
      else if \<not> truthy (page_link e p) then Inr r
      else if \<not> (dir_exists s \<or> mkdir_ok e) then Inl MkdirError
      else if scan_yields e p
      then Inr (mark_downloaded r (Some (outputPath_of (title p))) PAGE_SCAN)
      else Inr r)"
proof (cases "paperUrl p")
  case None
  then show ?thesis by (simp add: strategy_b_def)
next
  case (Some url)
  show ?thesis
  proof (cases "url = []")
    case True
    with Some show ?thesis by (simp add: strategy_b_def)
  next
    case False
    let ?s1 = "emit (NewPage (next_page s)) (s\<lparr>next_page := Suc (next_page s)\<rparr>)"
    have link: "page_link e p = found_on_page e url"
      using Some False by (simp add: page_link_def)
    have yields: "scan_yields e p \<longleftrightarrow>
        truthy (found_on_page e url) \<and> fetch_succeeds e (the (found_on_page e url)) (title p)"
      by (cases "found_on_page e url") (simp_all add: scan_yields_def link)
    have "dir_exists ?s1 = dir_exists s" by simp
    then show ?thesis
      using Some False
      by (cases "scan_and_download e ?s1 (next_page s) p url r")
        (use scan_and_download_value [of e ?s1 "next_page s" p url r] in
          \<open>auto simp: strategy_b_def Let_def link yields\<close>)
  qed
qed

lemma direct_yields_Some:
  "directPdfUrl p = Some d \<Longrightarrow> direct_yields e p \<longleftrightarrow> d \<noteq> [] \<and> fetch_succeeds e d (title p)"
  by (simp add: direct_yields_def)

lemma download_paper_value:
  "fst (download_paper e s p) =
     (if truthy (directPdfUrl p) \<and> \<not> (dir_exists s \<or> mkdir_ok e) then Inl MkdirError
      else if direct_yields e p
      then Inr (mark_downloaded (initial_result p) (Some (outputPath_of (title p))) DIRECT_LINK)
      else if \<not> truthy (paperUrl p) then Inr (initial_result p)
      else if \<not> new_page_ok e (next_page s) then Inl NewPageError
      else if \<not> close_ok e (next_page s) then Inl CloseError
      else if \<not> truthy (page_link e p) then Inr (initial_result p)
      else if \<not> (dir_exists s \<or> mkdir_ok e) then Inl MkdirError
      else if scan_yields e p
      then Inr (mark_downloaded (initial_result p) (Some (outputPath_of (title p))) PAGE_SCAN)
      else Inr (initial_result p))"
proof (cases "directPdfUrl p")
  case None
  then show ?thesis
    by (simp add: download_paper_def strategy_b_value direct_yields_def)
next
  case (Some d)
  show ?thesis
  proof (cases "d = []")
    case True
    with Some show ?thesis
      by (simp add: download_paper_def strategy_b_value direct_yields_def)
  next
    case False
    let ?s1 = "snd (downloadPDF e s d (title p))"
    have s1: "next_page ?s1 = next_page s"
      "dir_exists s \<or> mkdir_ok e \<Longrightarrow> dir_exists ?s1"
      by (simp_all add: downloadPDF_next_page downloadPDF_dir)
    have step: "download_paper e s p =
        (case fst (downloadPDF e s d (title p)) of
           Inl err \<Rightarrow> (Inl err, ?s1)
         | Inr saved \<Rightarrow>
             if truthy saved
             then (Inr (mark_downloaded (initial_result p) saved DIRECT_LINK), ?s1)
             else strategy_b e ?s1 p (initial_result p))"
      using Some False
      by (cases "downloadPDF e s d (title p)") (simp add: download_paper_def Let_def split: sum.splits)
    consider (mkdir) "\<not> (dir_exists s \<or> mkdir_ok e)"
      | (saved) "dir_exists s \<or> mkdir_ok e" "fetch_succeeds e d (title p)"
      | (null) "dir_exists s \<or> mkdir_ok e" "\<not> fetch_succeeds e d (title p)"
      by blast
    then show ?thesis
    proof cases
      case mkdir
      then have "fst (downloadPDF e s d (title p)) = Inl MkdirError"
        by (simp add: downloadPDF_value)
      then show ?thesis using mkdir Some False by (simp add: step)
    next
      case saved
      then have "fst (downloadPDF e s d (title p)) = Inr (Some (outputPath_of (title p)))"
        by (simp add: downloadPDF_value)
      then show ?thesis
        using saved Some False
        by (simp add: step outputPath_of_nonempty direct_yields_Some)
    next
      case null
      then have "fst (downloadPDF e s d (title p)) = Inr None"
        by (simp add: downloadPDF_value)
      then show ?thesis
        using null Some False s1
        by (simp add: step strategy_b_value direct_yields_Some)
    qed
  qed
qed


lemma downloadPDF_no_tab_calls:
  "\<exists>dl. filter is_tab_call dl = [] \<and> events (snd (downloadPDF e s url t)) = events s @ dl"
  by (cases rule: downloadPDF_cases [of s e url t]) auto




section \<open>Outcomes, precedence and the browsing context\<close>

lemma new_events_append: "events s' = events s @ evs \<Longrightarrow> new_events s s' = evs"
  by (simp add: new_events_def)

lemma example_names:
  "outputPath_of (js ''Paper A'') = js ''output/pdfs/Paper_A.pdf''"
  "outputPath_of (js ''Paper B'') = js ''output/pdfs/Paper_B.pdf''"
  by (simp_all add: outputPath_of_eq sanitizeFilename_pipeline in_kept_class_def is_alnum_def
      is_ws_def js_def)

lemma accepted_pdf_bytes:
  "accepted \<lparr> status = 200, content_type = Some (js ''application/pdf''), body = Some pdf_bytes \<rparr>
     pdf_bytes"
  by (simp add: accepted_def response_ok_def contentType_of_def ascii_slice_def pdf_bytes_def js_def)

lemma fetch_succeeds_pdf:
  "http_get e url = pdf_response pdf_bytes \<Longrightarrow> write_ok e (outputPath_of t) \<Longrightarrow>
   fetch_succeeds e url t"
  using accepted_pdf_bytes by (simp add: fetch_succeeds_def pdf_response_def)

lemma fetch_fails_html: "http_get e url = html_response \<Longrightarrow> \<not> fetch_succeeds e url t"
  by (simp add: fetch_succeeds_def html_response_def accepted_def contentType_of_def js_def)

text \<open>
  Claim C6. Every outcome that the download of a paper produces is downloaded exactly
  when it has a saved path and a method.
\<close>

theorem outcome_invariant:
  "fst (download_paper e s p) = Inr r \<Longrightarrow>
   (downloaded r \<longleftrightarrow> savedPath r \<noteq> None \<and> r_method r \<noteq> None)"
  by (simp add: download_paper_value mark_downloaded_def initial_result_def split: if_splits)
    auto

text \<open>
  Claim C6 on two papers: one whose direct link gives a PDF, and one with no direct link
  and a paper page that cannot be loaded.
\<close>

theorem outcome_invariant_witness:
  "fst (download_paper (env_with (\<lambda>u. pdf_response pdf_bytes) (\<lambda>u. None)) fresh_world paper_a) =
     Inr \<lparr> r_title = js ''Paper A'', downloaded = True,
           savedPath = Some (js ''output/pdfs/Paper_A.pdf''), r_method = Some DIRECT_LINK \<rparr> \<and>
   fst (download_paper (env_with (\<lambda>u. html_response) (\<lambda>u. None)) fresh_world paper_b) =
     Inr \<lparr> r_title = js ''Paper B'', downloaded = False, savedPath = None, r_method = None \<rparr>"
proof -
  let ?e = "env_with (\<lambda>u. pdf_response pdf_bytes) (\<lambda>u. None)"
  let ?f = "env_with (\<lambda>u. html_response) (\<lambda>u. None)"
  have "fetch_succeeds ?e (js ''http://host/a.pdf'') (js ''Paper A'')"
    by (rule fetch_succeeds_pdf) (simp_all add: env_with_def)
  then have "direct_yields ?e paper_a"
    by (simp add: direct_yields_def paper_a_def js_def)
  then have a: "fst (download_paper ?e fresh_world paper_a) =
      Inr \<lparr> r_title = js ''Paper A'', downloaded = True,
            savedPath = Some (js ''output/pdfs/Paper_A.pdf''), r_method = Some DIRECT_LINK \<rparr>"
    by (simp add: download_paper_value env_with_def mark_downloaded_def initial_result_def
        paper_a_def example_names)
  have "page_link ?f paper_b = None"
    by (simp add: page_link_def found_on_page_def paper_b_def env_with_def)
  then have b: "fst (download_paper ?f fresh_world paper_b) =
      Inr \<lparr> r_title = js ''Paper B'', downloaded = False, savedPath = None, r_method = None \<rparr>"
    by (simp add: download_paper_value direct_yields_def env_with_def initial_result_def
        paper_b_def js_def)
  from outcome_invariant [OF a] outcome_invariant [OF b] a b show ?thesis by simp
qed




lemma strategy_b_saved_events:
  assumes "paperUrl p = Some url" "url \<noteq> []" "found_on_page e url = Some u" "u \<noteq> []"
    and "fetch_succeeds e u (title p)" and "dir_exists s \<or> mkdir_ok e"
    and "new_page_ok e (next_page s)"
  shows "events (snd (strategy_b e s p r)) =
    events s @ [NewPage (next_page s), Goto (next_page s) url, Fetch u,
                Write (outputPath_of (title p)), Close (next_page s)]"
proof -
  let ?tab = "next_page s"
  let ?s2 = "emit (Goto ?tab url) (emit (NewPage ?tab) (s\<lparr>next_page := Suc ?tab\<rparr>))"
  from assms(5) obtain resp buf where ok: "http_get e u = Response resp" "accepted resp buf"
      "write_ok e (outputPath_of (title p))"
    by (auto simp: fetch_succeeds_iff)
  have "dir_exists ?s2 \<or> mkdir_ok e" using assms(6) by simp
  then have "downloadPDF e ?s2 u (title p) =
      (Inr (Some (outputPath_of (title p))),
       emit (Write (outputPath_of (title p)))
         ((emit (Fetch u) (?s2\<lparr>dir_exists := True\<rparr>))
            \<lparr>files := (files ?s2)(outputPath_of (title p) \<mapsto> buf)\<rparr>))"
    using ok by (rule downloadPDF_saves)
  then show ?thesis
    using assms(1-4,7)
    by (simp add: strategy_b_def scan_and_download_def findPDFOnPage_eq Let_def
        outputPath_of_nonempty)
qed


text \<open>The scan is the first call on the context, and the close the last.\<close>

lemma scan_and_download_goto:
  "\<exists>dl. filter is_tab_call dl = [] \<and>
     events (snd (scan_and_download e s tab p url r)) = events s @ Goto tab url # dl"
proof (cases "truthy (found_on_page e url)")
  case False
  then have "events (snd (scan_and_download e s tab p url r)) = events s @ [Goto tab url]"
    by (cases "found_on_page e url") (simp_all add: scan_and_download_def findPDFOnPage_eq)
  then have "filter is_tab_call [] = [] \<and>
      events (snd (scan_and_download e s tab p url r)) = events s @ Goto tab url # []"
    by simp
  then show ?thesis by (rule exI)
next
  case True
  then obtain u where u: "found_on_page e url = Some u" "u \<noteq> []"
    by (cases "found_on_page e url") auto
  let ?s1 = "emit (Goto tab url) s"
  obtain dl where dl: "filter is_tab_call dl = []"
      "events (snd (downloadPDF e ?s1 u (title p))) = events ?s1 @ dl"
    using downloadPDF_no_tab_calls [of e ?s1 u "title p"] by blast
  have "snd (scan_and_download e s tab p url r) = snd (downloadPDF e ?s1 u (title p))"
    using u by (cases "downloadPDF e ?s1 u (title p)")
      (simp add: scan_and_download_def findPDFOnPage_eq split: sum.splits)
  then have "events (snd (scan_and_download e s tab p url r)) = events s @ Goto tab url # dl"
    using dl(2) by simp
  with dl(1) have "filter is_tab_call dl = [] \<and>
      events (snd (scan_and_download e s tab p url r)) = events s @ Goto tab url # dl"
    by simp
  then show ?thesis by (rule exI)
qed

lemma strategy_b_scans:
  assumes "paperUrl p = Some url" "url \<noteq> []" "new_page_ok e (next_page s)"
  shows "\<exists>dl. filter is_tab_call dl = [] \<and>
    events (snd (strategy_b e s p r)) =
      events s @ NewPage (next_page s) # Goto (next_page s) url # dl @ [Close (next_page s)]"
proof -
  let ?tab = "next_page s"
  let ?s1 = "emit (NewPage ?tab) (s\<lparr>next_page := Suc ?tab\<rparr>)"
  obtain dl where dl: "filter is_tab_call dl = []"
      "events (snd (scan_and_download e ?s1 ?tab p url r)) = events ?s1 @ Goto ?tab url # dl"
    using scan_and_download_goto [of e ?s1 ?tab p url r] by blast
  have "snd (strategy_b e s p r) = emit (Close ?tab) (snd (scan_and_download e ?s1 ?tab p url r))"
    using assms
    by (cases "scan_and_download e ?s1 ?tab p url r") (simp add: strategy_b_def Let_def)
  then have "events (snd (strategy_b e s p r)) =
      events s @ NewPage ?tab # Goto ?tab url # dl @ [Close ?tab]"
    using dl(2) by simp
  with dl(1) have "filter is_tab_call dl = [] \<and>
      events (snd (strategy_b e s p r)) =
        events s @ NewPage ?tab # Goto ?tab url # dl @ [Close ?tab]"
    by simp
  then show ?thesis by (rule exI)
qed

text \<open>What the unit does before strategy B when strategy A gives no file.\<close>

lemma download_paper_after_direct:
  assumes "\<not> direct_yields e p" and "truthy (directPdfUrl p) \<longrightarrow> dir_exists s \<or> mkdir_ok e"
  shows "\<exists>s1. download_paper e s p = strategy_b e s1 p (initial_result p) \<and>
    next_page s1 = next_page s \<and>
    (dir_exists s1 \<or> mkdir_ok e \<longleftrightarrow> dir_exists s \<or> mkdir_ok e) \<and>
    events s1 = events s @
      (case directPdfUrl p of None \<Rightarrow> [] | Some d' \<Rightarrow> if d' = [] then [] else [Fetch d'])"
proof (cases "truthy (directPdfUrl p)")
  case False
  then have "download_paper e s p = strategy_b e s p (initial_result p)"
    by (cases "directPdfUrl p") (auto simp: download_paper_def)
  with False have "download_paper e s p = strategy_b e s p (initial_result p) \<and>
      next_page s = next_page s \<and>
      (dir_exists s \<or> mkdir_ok e \<longleftrightarrow> dir_exists s \<or> mkdir_ok e) \<and>
      events s = events s @
        (case directPdfUrl p of None \<Rightarrow> [] | Some d' \<Rightarrow> if d' = [] then [] else [Fetch d'])"
    by (cases "directPdfUrl p") simp_all
  then show ?thesis by (rule exI)
next
  case True
  then obtain d' where d': "directPdfUrl p = Some d'" "d' \<noteq> []"
    by (cases "directPdfUrl p") auto
  from True assms(2) have ok: "dir_exists s \<or> mkdir_ok e" by simp
  from d' assms(1) have "\<not> fetch_succeeds e d' (title p)" by (simp add: direct_yields_Some)
  with ok have null: "downloadPDF e s d' (title p) =
      (Inr None, emit (Fetch d') (s\<lparr>dir_exists := True\<rparr>))"
    by (simp add: downloadPDF_null)
  let ?s1 = "emit (Fetch d') (s\<lparr>dir_exists := True\<rparr>)"
  have "download_paper e s p = strategy_b e ?s1 p (initial_result p)"
    using d' null by (simp add: download_paper_def Let_def)
  with d' ok have "download_paper e s p = strategy_b e ?s1 p (initial_result p) \<and>
      next_page ?s1 = next_page s \<and>
      (dir_exists ?s1 \<or> mkdir_ok e \<longleftrightarrow> dir_exists s \<or> mkdir_ok e) \<and>
      events ?s1 = events s @
        (case directPdfUrl p of None \<Rightarrow> [] | Some d' \<Rightarrow> if d' = [] then [] else [Fetch d'])"
    by simp
  then show ?thesis by (rule exI)
qed

lemma download_paper_scans:
  assumes "\<not> direct_yields e p" and "truthy (directPdfUrl p) \<longrightarrow> dir_exists s \<or> mkdir_ok e"
    and "paperUrl p = Some url" "url \<noteq> []" "new_page_ok e (next_page s)"
  shows "\<exists>dl. filter is_tab_call dl = [] \<and>
    new_events s (snd (download_paper e s p)) =
      (case directPdfUrl p of None \<Rightarrow> [] | Some d' \<Rightarrow> if d' = [] then [] else [Fetch d']) @
      NewPage (next_page s) # Goto (next_page s) url # dl @ [Close (next_page s)]"
proof -
  let ?direct = "case directPdfUrl p of None \<Rightarrow> []
      | Some d' \<Rightarrow> if d' = [] then [] else [Fetch d']"
  obtain s1 where s1: "download_paper e s p = strategy_b e s1 p (initial_result p)"
      "next_page s1 = next_page s" "events s1 = events s @ ?direct"
    using download_paper_after_direct [OF assms(1,2)] by blast
  from assms(5) s1(2) have "new_page_ok e (next_page s1)" by simp
  with assms(3,4) obtain dl where dl: "filter is_tab_call dl = []"
      "events (snd (strategy_b e s1 p (initial_result p))) =
        events s1 @ NewPage (next_page s1) # Goto (next_page s1) url # dl @ [Close (next_page s1)]"
    using strategy_b_scans [of p url e s1 "initial_result p"] by blast
  have "events (snd (download_paper e s p)) =
      events s @ (?direct @ NewPage (next_page s) # Goto (next_page s) url # dl @
        [Close (next_page s)])"
    using dl(2) s1 by simp
  then have "new_events s (snd (download_paper e s p)) =
      ?direct @ NewPage (next_page s) # Goto (next_page s) url # dl @ [Close (next_page s)]"
    by (rule new_events_append)
  with dl(1) have "filter is_tab_call dl = [] \<and>
      new_events s (snd (download_paper e s p)) =
        ?direct @ NewPage (next_page s) # Goto (next_page s) url # dl @ [Close (next_page s)]"
    by simp
  then show ?thesis by (rule exI)
qed

lemma download_paper_saved_events:
  assumes "\<not> direct_yields e p" and "paperUrl p = Some url" "url \<noteq> []"
    and "found_on_page e url = Some u" "u \<noteq> []" "fetch_succeeds e u (title p)"
    and "dir_exists s \<or> mkdir_ok e" and "new_page_ok e (next_page s)"
  shows "new_events s (snd (download_paper e s p)) =
    (case directPdfUrl p of None \<Rightarrow> [] | Some d' \<Rightarrow> if d' = [] then [] else [Fetch d']) @
    [NewPage (next_page s), Goto (next_page s) url, Fetch u,
     Write (outputPath_of (title p)), Close (next_page s)]"
proof -
  let ?direct = "case directPdfUrl p of None \<Rightarrow> []
      | Some d' \<Rightarrow> if d' = [] then [] else [Fetch d']"
  from assms(7) have "truthy (directPdfUrl p) \<longrightarrow> dir_exists s \<or> mkdir_ok e" by simp
  with assms(1) obtain s1 where s1: "download_paper e s p = strategy_b e s1 p (initial_result p)"
      "next_page s1 = next_page s" "dir_exists s1 \<or> mkdir_ok e \<longleftrightarrow> dir_exists s \<or> mkdir_ok e"
      "events s1 = events s @ ?direct"
    using download_paper_after_direct [of e p s] by blast
  have "events (snd (strategy_b e s1 p (initial_result p))) =
      events s1 @ [NewPage (next_page s1), Goto (next_page s1) url, Fetch u,
                   Write (outputPath_of (title p)), Close (next_page s1)]"
    using assms(2-7) s1(2,3) assms(8) by (intro strategy_b_saved_events) simp_all
  then have "events (snd (download_paper e s p)) =
      events s @ (?direct @ [NewPage (next_page s), Goto (next_page s) url, Fetch u,
                   Write (outputPath_of (title p)), Close (next_page s)])"
    using s1 by simp
  then show ?thesis by (rule new_events_append)
qed

text \<open>When the unit returns an outcome, and when it throws.\<close>

lemma download_paper_returns:
  "(\<exists>r. fst (download_paper e s p) = Inr r) \<longleftrightarrow>
     (truthy (directPdfUrl p) \<longrightarrow> dir_exists s \<or> mkdir_ok e) \<and>
     (\<not> direct_yields e p \<and> truthy (paperUrl p) \<longrightarrow>
        new_page_ok e (next_page s) \<and> close_ok e (next_page s) \<and>
        (truthy (page_link e p) \<longrightarrow> dir_exists s \<or> mkdir_ok e))"
  by (simp add: download_paper_value)

text \<open>
  Claim C1, as amended. The direct link comes first: when it is there and its download
  succeeds, the outcome is downloaded by the direct link, and the calls of the unit are
  that one request and the write of the file, so no page is opened. When the direct
  link is not there or its download gives no file and does not throw, and the paper
  has a page address, a browsing context is asked for: when it opens, the calls of the unit are the request of the
  direct link, if there was one, then the opening of the context and the scan of the
  page, and the close of the context comes last; when it does not open, the unit
  throws. When the scan finds a link whose download succeeds, the calls are exactly
  these with the request of that link and the write of the file, and the outcome is
  downloaded by the page scan if the close of the context succeeds; if it fails, the
  unit throws. When neither strategy gives a file, an outcome that is produced is not
  downloaded and has no method. An outcome is produced exactly when the directory is
  there or can be made for each download that is tried, and the context that is asked
  for opens and closes.
\<close>

theorem acquisition_precedence:
  "(directPdfUrl p = Some d \<and> d \<noteq> [] \<and> fetch_succeeds e d (title p) \<and>
      (dir_exists s \<or> mkdir_ok e) \<longrightarrow>
      fst (download_paper e s p) =
        Inr \<lparr> r_title = title p, downloaded = True,
              savedPath = Some (outputPath_of (title p)), r_method = Some DIRECT_LINK \<rparr> \<and>
      new_events s (snd (download_paper e s p)) = [Fetch d, Write (outputPath_of (title p))]) \<and>
   (\<not> direct_yields e p \<and> (truthy (directPdfUrl p) \<longrightarrow> dir_exists s \<or> mkdir_ok e) \<and>
      paperUrl p = Some url \<and> url \<noteq> [] \<longrightarrow>
      (new_page_ok e (next_page s) \<longrightarrow>
        (\<exists>dl. filter is_tab_call dl = [] \<and>
           new_events s (snd (download_paper e s p)) =
             (case directPdfUrl p of None \<Rightarrow> [] | Some d' \<Rightarrow> if d' = [] then [] else [Fetch d']) @
             NewPage (next_page s) # Goto (next_page s) url # dl @ [Close (next_page s)])) \<and>
      (\<not> new_page_ok e (next_page s) \<longrightarrow> fst (download_paper e s p) = Inl NewPageError)) \<and>
   (\<not> direct_yields e p \<and> paperUrl p = Some url \<and> url \<noteq> [] \<and>
      found_on_page e url = Some u \<and> u \<noteq> [] \<and> fetch_succeeds e u (title p) \<and>
      (dir_exists s \<or> mkdir_ok e) \<and> new_page_ok e (next_page s) \<longrightarrow>
      new_events s (snd (download_paper e s p)) =
        (case directPdfUrl p of None \<Rightarrow> [] | Some d' \<Rightarrow> if d' = [] then [] else [Fetch d']) @
        [NewPage (next_page s), Goto (next_page s) url, Fetch u,
         Write (outputPath_of (title p)), Close (next_page s)] \<and>
      fst (download_paper e s p) =
        (if close_ok e (next_page s)
         then Inr \<lparr> r_title = title p, downloaded = True,
                    savedPath = Some (outputPath_of (title p)), r_method = Some PAGE_SCAN \<rparr>
         else Inl CloseError)) \<and>
   (\<not> direct_yields e p \<and> \<not> scan_yields e p \<and> fst (download_paper e s p) = Inr r \<longrightarrow>
      r = \<lparr> r_title = title p, downloaded = False, savedPath = None, r_method = None \<rparr>) \<and>
   ((\<exists>r'. fst (download_paper e s p) = Inr r') \<longleftrightarrow>
      (truthy (directPdfUrl p) \<longrightarrow> dir_exists s \<or> mkdir_ok e) \<and>
      (\<not> direct_yields e p \<and> truthy (paperUrl p) \<longrightarrow>
         new_page_ok e (next_page s) \<and> close_ok e (next_page s) \<and>
         (truthy (page_link e p) \<longrightarrow> dir_exists s \<or> mkdir_ok e)))"
proof -
  have a: "fst (download_paper e s p) =
        Inr \<lparr> r_title = title p, downloaded = True,
              savedPath = Some (outputPath_of (title p)), r_method = Some DIRECT_LINK \<rparr> \<and>
      new_events s (snd (download_paper e s p)) = [Fetch d, Write (outputPath_of (title p))]"
    if h: "directPdfUrl p = Some d \<and> d \<noteq> [] \<and> fetch_succeeds e d (title p) \<and>
      (dir_exists s \<or> mkdir_ok e)"
  proof
    from h have "direct_yields e p" by (simp add: direct_yields_Some)
    with h show "fst (download_paper e s p) =
        Inr \<lparr> r_title = title p, downloaded = True,
              savedPath = Some (outputPath_of (title p)), r_method = Some DIRECT_LINK \<rparr>"
      by (simp add: download_paper_value mark_downloaded_def initial_result_def)
    from h obtain resp buf where ok: "http_get e d = Response resp" "accepted resp buf"
        "write_ok e (outputPath_of (title p))"
      by (auto simp: fetch_succeeds_iff)
    from h have "dir_exists s \<or> mkdir_ok e" by simp
    then have "downloadPDF e s d (title p) =
        (Inr (Some (outputPath_of (title p))),
         emit (Write (outputPath_of (title p)))
           ((emit (Fetch d) (s\<lparr>dir_exists := True\<rparr>))
              \<lparr>files := (files s)(outputPath_of (title p) \<mapsto> buf)\<rparr>))"
      using ok by (rule downloadPDF_saves)
    with h have "events (snd (download_paper e s p)) =
        events s @ [Fetch d, Write (outputPath_of (title p))]"
      by (simp add: download_paper_def Let_def outputPath_of_nonempty)
    then show "new_events s (snd (download_paper e s p)) =
        [Fetch d, Write (outputPath_of (title p))]"
      by (rule new_events_append)
  qed
  have b1: "(new_page_ok e (next_page s) \<longrightarrow>
        (\<exists>dl. filter is_tab_call dl = [] \<and>
           new_events s (snd (download_paper e s p)) =
             (case directPdfUrl p of None \<Rightarrow> [] | Some d' \<Rightarrow> if d' = [] then [] else [Fetch d']) @
             NewPage (next_page s) # Goto (next_page s) url # dl @ [Close (next_page s)])) \<and>
      (\<not> new_page_ok e (next_page s) \<longrightarrow> fst (download_paper e s p) = Inl NewPageError)"
    if h: "\<not> direct_yields e p \<and> (truthy (directPdfUrl p) \<longrightarrow> dir_exists s \<or> mkdir_ok e) \<and>
      paperUrl p = Some url \<and> url \<noteq> []"
  proof (intro conjI impI)
    assume "new_page_ok e (next_page s)"
    with h show "\<exists>dl. filter is_tab_call dl = [] \<and>
        new_events s (snd (download_paper e s p)) =
          (case directPdfUrl p of None \<Rightarrow> [] | Some d' \<Rightarrow> if d' = [] then [] else [Fetch d']) @
          NewPage (next_page s) # Goto (next_page s) url # dl @ [Close (next_page s)]"
      by (intro download_paper_scans) simp_all
  next
    assume "\<not> new_page_ok e (next_page s)"
    with h show "fst (download_paper e s p) = Inl NewPageError"
      by (auto simp: download_paper_value)
  qed
  have b2: "new_events s (snd (download_paper e s p)) =
        (case directPdfUrl p of None \<Rightarrow> [] | Some d' \<Rightarrow> if d' = [] then [] else [Fetch d']) @
        [NewPage (next_page s), Goto (next_page s) url, Fetch u,
         Write (outputPath_of (title p)), Close (next_page s)] \<and>
      fst (download_paper e s p) =
        (if close_ok e (next_page s)
         then Inr \<lparr> r_title = title p, downloaded = True,
                    savedPath = Some (outputPath_of (title p)), r_method = Some PAGE_SCAN \<rparr>
         else Inl CloseError)"
    if h: "\<not> direct_yields e p \<and> paperUrl p = Some url \<and> url \<noteq> [] \<and>
      found_on_page e url = Some u \<and> u \<noteq> [] \<and> fetch_succeeds e u (title p) \<and>
      (dir_exists s \<or> mkdir_ok e) \<and> new_page_ok e (next_page s)"
  proof
    from h show "new_events s (snd (download_paper e s p)) =
        (case directPdfUrl p of None \<Rightarrow> [] | Some d' \<Rightarrow> if d' = [] then [] else [Fetch d']) @
        [NewPage (next_page s), Goto (next_page s) url, Fetch u,
         Write (outputPath_of (title p)), Close (next_page s)]"
      by (intro download_paper_saved_events) simp_all
    from h have link: "page_link e p = Some u" by (simp add: page_link_def)
    with h have "scan_yields e p" by (simp add: scan_yields_def)
    with h link show "fst (download_paper e s p) =
        (if close_ok e (next_page s)
         then Inr \<lparr> r_title = title p, downloaded = True,
                    savedPath = Some (outputPath_of (title p)), r_method = Some PAGE_SCAN \<rparr>
         else Inl CloseError)"
      by (simp add: download_paper_value mark_downloaded_def initial_result_def)
  qed
  have c: "r = \<lparr> r_title = title p, downloaded = False, savedPath = None, r_method = None \<rparr>"
    if "\<not> direct_yields e p \<and> \<not> scan_yields e p \<and> fst (download_paper e s p) = Inr r"
    using that by (auto simp: download_paper_value initial_result_def split: if_splits)
  from a b1 b2 c download_paper_returns [of e s p] show ?thesis by blast
qed

text \<open>
  Claim C1 on three runs. The direct link of \<open>paper_a\<close> gives a PDF: one request, one
  write, no page. The direct link of \<open>paper_a\<close> gives a web page and the paper page
  has a link to a PDF: the direct link is requested first, then the page is opened,
  scanned and closed. \<open>paper_b\<close> has no direct link and its page cannot be loaded:
  the context is opened, the page is asked for, the context is closed, and the outcome
  is not downloaded.
\<close>

theorem acquisition_precedence_witness:
  "fst (download_paper (env_with (\<lambda>u. pdf_response pdf_bytes) (\<lambda>u. None)) fresh_world paper_a) =
     Inr \<lparr> r_title = js ''Paper A'', downloaded = True,
           savedPath = Some (js ''output/pdfs/Paper_A.pdf''), r_method = Some DIRECT_LINK \<rparr> \<and>
   new_events fresh_world
     (snd (download_paper (env_with (\<lambda>u. pdf_response pdf_bytes) (\<lambda>u. None)) fresh_world paper_a)) =
     [Fetch (js ''http://host/a.pdf''), Write (js ''output/pdfs/Paper_A.pdf'')] \<and>
   fst (download_paper (env_with direct_blocked page_with_link) fresh_world paper_a) =
     Inr \<lparr> r_title = js ''Paper A'', downloaded = True,
           savedPath = Some (js ''output/pdfs/Paper_A.pdf''), r_method = Some PAGE_SCAN \<rparr> \<and>
   new_events fresh_world
     (snd (download_paper (env_with direct_blocked page_with_link) fresh_world paper_a)) =
     [Fetch (js ''http://host/a.pdf''), NewPage 0, Goto 0 (js ''http://site/a''),
      Fetch (js ''http://site/b.pdf''), Write (js ''output/pdfs/Paper_A.pdf''), Close 0] \<and>
   fst (download_paper (env_with (\<lambda>u. html_response) (\<lambda>u. None)) fresh_world paper_b) =
     Inr \<lparr> r_title = js ''Paper B'', downloaded = False, savedPath = None, r_method = None \<rparr> \<and>
   take 2 (new_events fresh_world
     (snd (download_paper (env_with (\<lambda>u. html_response) (\<lambda>u. None)) fresh_world paper_b))) =
     [NewPage 0, Goto 0 (js ''http://site/b'')] \<and>
   last (new_events fresh_world
     (snd (download_paper (env_with (\<lambda>u. html_response) (\<lambda>u. None)) fresh_world paper_b))) =
     Close 0"
proof -
  let ?e1 = "env_with (\<lambda>u. pdf_response pdf_bytes) (\<lambda>u. None)"
  let ?e2 = "env_with direct_blocked page_with_link"
  let ?e3 = "env_with (\<lambda>u. html_response) (\<lambda>u. None)"
  have fields: "title paper_a = js ''Paper A''" "directPdfUrl paper_a = Some (js ''http://host/a.pdf'')"
      "paperUrl paper_a = Some (js ''http://site/a'')" "title paper_b = js ''Paper B''"
      "directPdfUrl paper_b = None" "paperUrl paper_b = Some (js ''http://site/b'')"
    by (simp_all add: paper_a_def paper_b_def)
  have nonempty: "js ''http://host/a.pdf'' \<noteq> []" "js ''http://site/a'' \<noteq> []"
      "js ''http://site/b.pdf'' \<noteq> []" "js ''http://site/b.pdf'' \<noteq> js ''http://host/a.pdf''"
    by (simp_all add: js_def)
  have ok: "dir_exists fresh_world \<or> mkdir_ok ?e1" "dir_exists fresh_world \<or> mkdir_ok ?e2"
      "new_page_ok ?e2 (next_page fresh_world)" "close_ok ?e2 (next_page fresh_world)"
      "next_page fresh_world = 0"
    by (simp_all add: env_with_def fresh_world_def)
  have f1: "fetch_succeeds ?e1 (js ''http://host/a.pdf'') (js ''Paper A'')"
    by (rule fetch_succeeds_pdf) (simp_all add: env_with_def)
  have f2: "\<not> fetch_succeeds ?e2 (js ''http://host/a.pdf'') (js ''Paper A'')"
    by (rule fetch_fails_html) (simp add: env_with_def direct_blocked_def)
  have f3: "fetch_succeeds ?e2 (js ''http://site/b.pdf'') (js ''Paper A'')"
    by (rule fetch_succeeds_pdf) (simp_all add: env_with_def direct_blocked_def nonempty)
  have found: "found_on_page ?e2 (js ''http://site/a'') = Some (js ''http://site/b.pdf'')"
    by (simp add: found_on_page_def env_with_def page_with_link_def scan_page_def nonempty)
  have n2: "\<not> direct_yields ?e2 paper_a"
    using f2 by (simp add: direct_yields_def fields)
  have n3: "\<not> direct_yields ?e3 paper_b" "\<not> scan_yields ?e3 paper_b"
    by (simp_all add: direct_yields_def scan_yields_def page_link_def found_on_page_def fields
        env_with_def)
  have r3: "fst (download_paper ?e3 fresh_world paper_b) = Inr (initial_result paper_b)"
    using n3 by (simp add: download_paper_value fields page_link_def found_on_page_def env_with_def)
  note a = acquisition_precedence [where p = paper_a and d = "js ''http://host/a.pdf''" and e = ?e1
      and s = fresh_world]
  note b = acquisition_precedence [where p = paper_a and e = ?e2 and s = fresh_world
      and url = "js ''http://site/a''" and u = "js ''http://site/b.pdf''"]
  note c = acquisition_precedence [where p = paper_b and e = ?e3 and s = fresh_world
      and r = "initial_result paper_b" and url = "js ''http://site/b''"]
  have ok3: "new_page_ok ?e3 (next_page fresh_world)" "js ''http://site/b'' \<noteq> []"
    by (simp_all add: env_with_def js_def)
  from a f1 ok nonempty have
    "fst (download_paper ?e1 fresh_world paper_a) =
       Inr \<lparr> r_title = js ''Paper A'', downloaded = True,
             savedPath = Some (js ''output/pdfs/Paper_A.pdf''), r_method = Some DIRECT_LINK \<rparr> \<and>
     new_events fresh_world (snd (download_paper ?e1 fresh_world paper_a)) =
       [Fetch (js ''http://host/a.pdf''), Write (js ''output/pdfs/Paper_A.pdf'')]"
    by (simp add: fields example_names)
  moreover from b n2 f3 found ok nonempty have
    "fst (download_paper ?e2 fresh_world paper_a) =
       Inr \<lparr> r_title = js ''Paper A'', downloaded = True,
             savedPath = Some (js ''output/pdfs/Paper_A.pdf''), r_method = Some PAGE_SCAN \<rparr> \<and>
     new_events fresh_world (snd (download_paper ?e2 fresh_world paper_a)) =
       [Fetch (js ''http://host/a.pdf''), NewPage 0, Goto 0 (js ''http://site/a''),
        Fetch (js ''http://site/b.pdf''), Write (js ''output/pdfs/Paper_A.pdf''), Close 0]"
    by (simp add: fields example_names)
  moreover from c n3 r3 have
    "fst (download_paper ?e3 fresh_world paper_b) =
       Inr \<lparr> r_title = js ''Paper B'', downloaded = False, savedPath = None, r_method = None \<rparr>"
    by (simp add: fields)
  moreover have
    "take 2 (new_events fresh_world (snd (download_paper ?e3 fresh_world paper_b))) =
       [NewPage 0, Goto 0 (js ''http://site/b'')] \<and>
     last (new_events fresh_world (snd (download_paper ?e3 fresh_world paper_b))) = Close 0"
  proof -
    from c n3 ok3 obtain dl where
      "new_events fresh_world (snd (download_paper ?e3 fresh_world paper_b)) =
         NewPage 0 # Goto 0 (js ''http://site/b'') # dl @ [Close 0]"
      by (auto simp: fields ok)
    then show ?thesis by simp
  qed
  ultimately show ?thesis by blast
qed

text \<open>
  Claim C1 as stated fails when the browsing context does not close or does not open.
  The direct link of \<open>paper_a\<close> gives a web page, the scan of its page finds a link,
  the file is fetched and written, and the close of the context fails: the unit throws
  and there is no outcome with the method of the page scan. \<open>paper_b\<close> has no direct
  link and a page address, and no context can be opened: no call is made, the page is
  not scanned, and there is no outcome at all.
\<close>

theorem page_scan_without_outcome:
  "fst (download_paper ((env_with direct_blocked page_with_link)\<lparr>close_ok := (\<lambda>n. False)\<rparr>)
         fresh_world paper_a) = Inl CloseError \<and>
   new_events fresh_world
     (snd (download_paper ((env_with direct_blocked page_with_link)\<lparr>close_ok := (\<lambda>n. False)\<rparr>)
            fresh_world paper_a)) =
     [Fetch (js ''http://host/a.pdf''), NewPage 0, Goto 0 (js ''http://site/a''),
      Fetch (js ''http://site/b.pdf''), Write (js ''output/pdfs/Paper_A.pdf''), Close 0] \<and>
   download_paper ((env_with (\<lambda>u. html_response) (\<lambda>u. None))\<lparr>new_page_ok := (\<lambda>n. False)\<rparr>)
     fresh_world paper_b = (Inl NewPageError, fresh_world)"
proof -
  let ?e1 = "(env_with direct_blocked page_with_link)\<lparr>close_ok := (\<lambda>n. False)\<rparr>"
  let ?e2 = "(env_with (\<lambda>u. html_response) (\<lambda>u. None))\<lparr>new_page_ok := (\<lambda>n. False)\<rparr>"
  have fields: "title paper_a = js ''Paper A''" "directPdfUrl paper_a = Some (js ''http://host/a.pdf'')"
      "paperUrl paper_a = Some (js ''http://site/a'')"
    by (simp_all add: paper_a_def)
  have nonempty: "js ''http://host/a.pdf'' \<noteq> []" "js ''http://site/a'' \<noteq> []"
      "js ''http://site/b.pdf'' \<noteq> []" "js ''http://site/b.pdf'' \<noteq> js ''http://host/a.pdf''"
    by (simp_all add: js_def)
  have ok: "dir_exists fresh_world \<or> mkdir_ok ?e1" "new_page_ok ?e1 (next_page fresh_world)"
      "\<not> close_ok ?e1 (next_page fresh_world)" "next_page fresh_world = 0"
    by (simp_all add: env_with_def fresh_world_def)
  have f2: "\<not> fetch_succeeds ?e1 (js ''http://host/a.pdf'') (js ''Paper A'')"
    by (rule fetch_fails_html) (simp add: env_with_def direct_blocked_def)
  have f3: "fetch_succeeds ?e1 (js ''http://site/b.pdf'') (js ''Paper A'')"
    by (rule fetch_succeeds_pdf) (simp_all add: env_with_def direct_blocked_def nonempty)
  have found: "found_on_page ?e1 (js ''http://site/a'') = Some (js ''http://site/b.pdf'')"
    by (simp add: found_on_page_def env_with_def page_with_link_def scan_page_def nonempty)
  have n2: "\<not> direct_yields ?e1 paper_a"
    using f2 by (simp add: direct_yields_def fields)
  have link: "page_link ?e1 paper_a = Some (js ''http://site/b.pdf'')"
    using found by (simp add: page_link_def fields nonempty)
  have "fst (download_paper ?e1 fresh_world paper_a) = Inl CloseError"
    using n2 ok link by (simp add: download_paper_value fields nonempty)
  moreover have "new_events fresh_world (snd (download_paper ?e1 fresh_world paper_a)) =
      (case directPdfUrl paper_a of None \<Rightarrow> []
       | Some d' \<Rightarrow> if d' = [] then [] else [Fetch d']) @
      [NewPage (next_page fresh_world), Goto (next_page fresh_world) (js ''http://site/a''),
       Fetch (js ''http://site/b.pdf''), Write (outputPath_of (title paper_a)),
       Close (next_page fresh_world)]"
    using n2 found f3 ok nonempty
    by (intro download_paper_saved_events) (simp_all add: fields)
  moreover have "download_paper ?e2 fresh_world paper_b = (Inl NewPageError, fresh_world)"
    by (simp add: download_paper_def strategy_b_def paper_b_def env_with_def) (simp add: js_def)?
  ultimately show ?thesis by (simp add: fields nonempty ok example_names)
qed


section \<open>The units under the event loop\<close>

lemma on_buffer_value: "fst (on_buffer e w r path) = buffer_value e r path"
  by (simp add: on_buffer_def buffer_value_def split: option.splits)

lemma on_buffer_dir: "on_buffer e w r path = (x, w') \<Longrightarrow> dir_exists w' = dir_exists w"
  by (auto simp: on_buffer_def split: option.splits if_splits)

lemma issue_download_cases:
  "issue_download e w url =
     (if dir_exists w \<or> mkdir_ok e then (Inr (), emit (Fetch url) (w\<lparr>dir_exists := True\<rparr>))
      else (Inl MkdirError, w))"
proof (cases "dir_exists w")
  case True
  then have "w\<lparr>dir_exists := True\<rparr> = w" by simp
  with True show ?thesis by (simp add: issue_download_def ensureOutputDir_def)
next
  case False
  then show ?thesis by (simp add: issue_download_def ensureOutputDir_def)
qed

lemma download_value_eq:
  "download_value e url (outputPath_of t) =
     (if fetch_succeeds e url t then Some (outputPath_of t) else None)"
  by (auto simp: download_value_def on_fetch_def buffer_value_def fetch_succeeds_def accepted_def
      split: fetch_result.splits option.splits)

text \<open>One step of a unit does not change what the unit settles with.\<close>

lemma enter_b_settles:
  assumes "enter_b p w = (t, w')"
  shows "task_settles_with e ok p tab' t = strategy_b_result e ok p (next_page w)"
    and "dir_exists w' = dir_exists w"
  using assms
  by (auto simp: enter_b_def strategy_b_result_def split: option.splits if_splits)

lemma resume_settles:
  assumes "resume e p wt w = (t, w')" and "ok = (dir_exists w \<or> mkdir_ok e)"
  shows "\<exists>tab. task_settles_with e ok p tab' t = settles_with e ok p tab wt"
proof (cases wt)
  case FetchDirect
  with assms show ?thesis
    by (auto simp: download_value_def split: option.splits)
next
  case (BufferDirect r)
  with assms on_buffer_value [of e w r "outputPath_of (title p)"] show ?thesis
    by (auto split: prod.splits)
next
  case (ReturnDirect x)
  show ?thesis
  proof (cases "\<exists>saved. x = Inr saved \<and> \<not> truthy saved")
    case True
    then obtain saved where x: "x = Inr saved" "\<not> truthy saved" by blast
    with assms ReturnDirect have "enter_b p w = (t, w')" by simp
    then have "task_settles_with e ok p tab' t = strategy_b_result e ok p (next_page w)"
      by (rule enter_b_settles)
    with x ReturnDirect have
      "task_settles_with e ok p tab' t = settles_with e ok p (next_page w) wt"
      by (simp add: after_direct_def)
    then show ?thesis by blast
  next
    case False
    with assms ReturnDirect show ?thesis
      by (cases x) (auto simp: after_direct_def split: if_splits)
  qed
next
  case (OpenTab n)
  with assms show ?thesis
    by (auto simp: opens_with_def split: option.splits if_splits)
next
  case (GotoPage n)
  with assms show ?thesis
    by (auto simp: scan_of_def found_on_page_def after_scan_def split: option.splits)
next
  case (EvaluatePage n pg)
  with assms show ?thesis by auto
next
  case (ReturnScan n pdfUrl)
  with assms show ?thesis
    by (auto simp: after_scan_def call_close_def issue_download_cases try_completion_def
        split: option.splits if_splits)
next
  case (FetchFound n u)
  with assms show ?thesis
    by (auto simp: download_value_def split: option.splits)
next
  case (BufferFound n r)
  with assms on_buffer_value [of e w r "outputPath_of (title p)"] show ?thesis
    by (auto split: prod.splits)
next
  case (ReturnFound n x)
  with assms show ?thesis by (auto simp: call_close_def)
next
  case (CloseTab n c)
  with assms show ?thesis by auto
qed

lemma resume_dir:
  assumes "resume e p wt w = (t, w')"
  shows "(dir_exists w' \<or> mkdir_ok e) = (dir_exists w \<or> mkdir_ok e)"
  using assms
  by (cases wt)
    (auto simp: enter_b_def call_close_def issue_download_cases dest: on_buffer_dir
      split: option.splits sum.splits if_splits prod.splits)

lemma resume_steps:
  assumes "resume e p wt w = (t, w')"
  shows "steps_left t < steps_left (Waiting wt)"
  using assms
  by (cases wt)
    (auto simp: enter_b_def call_close_def issue_download_cases
      split: option.splits sum.splits if_splits prod.splits)


lemma start_settles:
  assumes "start e p w = (t, w')" and "ok = (dir_exists w \<or> mkdir_ok e)"
  shows "\<exists>tab. task_settles_with e ok p tab' t = unit_result e ok p tab"
proof (cases "truthy (directPdfUrl p)")
  case False
  then have "start e p w = enter_b p w" and "unit_result e ok p (next_page w) =
      strategy_b_result e ok p (next_page w)"
    by (cases "directPdfUrl p"; simp add: start_def unit_result_def)+
  with assms(1) enter_b_settles(1) [of p w t w' e ok tab']
  have "task_settles_with e ok p tab' t = unit_result e ok p (next_page w)" by simp
  then show ?thesis by (rule exI)
next
  case True
  then obtain d where d: "directPdfUrl p = Some d" "d \<noteq> []"
    by (cases "directPdfUrl p") auto
  with assms show ?thesis
    by (auto simp: start_def unit_result_def issue_download_cases after_direct_def
        split: if_splits)
qed

lemma start_dir:
  assumes "start e p w = (t, w')"
  shows "(dir_exists w' \<or> mkdir_ok e) = (dir_exists w \<or> mkdir_ok e)"
  using assms
  by (auto simp: start_def enter_b_def issue_download_cases
      split: option.splits if_splits)

lemma unit_result_eq:
  "unit_result e (dir_exists s \<or> mkdir_ok e) p tab =
     settle (fst (download_paper e (s\<lparr>next_page := tab\<rparr>) p))"
proof -
  define ok where "ok = (dir_exists s \<or> mkdir_ok e)"
  have link: "scan_of e p = page_link e p" if "truthy (paperUrl p)"
    using that by (cases "paperUrl p") (auto simp: scan_of_def page_link_def)
  have b: "strategy_b_result e ok' p tab =
      settle (if \<not> truthy (paperUrl p) then Inr (initial_result p)
        else if \<not> new_page_ok e tab then Inl NewPageError
        else if \<not> close_ok e tab then Inl CloseError
        else if \<not> truthy (page_link e p) then Inr (initial_result p)
        else if \<not> ok' then Inl MkdirError
        else if scan_yields e p
        then Inr (mark_downloaded (initial_result p) (Some (outputPath_of (title p))) PAGE_SCAN)
        else Inr (initial_result p))" for ok'
    by (cases "page_link e p")
      (auto simp: strategy_b_result_def opens_with_def closes_with_def after_scan_def link
        try_completion_def download_value_eq scan_yields_def settle_def outputPath_of_nonempty)
  have val: "fst (download_paper e (s\<lparr>next_page := tab\<rparr>) p) =
     (if truthy (directPdfUrl p) \<and> \<not> ok then Inl MkdirError
      else if direct_yields e p
      then Inr (mark_downloaded (initial_result p) (Some (outputPath_of (title p))) DIRECT_LINK)
      else if \<not> truthy (paperUrl p) then Inr (initial_result p)
      else if \<not> new_page_ok e tab then Inl NewPageError
      else if \<not> close_ok e tab then Inl CloseError
      else if \<not> truthy (page_link e p) then Inr (initial_result p)
      else if \<not> ok then Inl MkdirError
      else if scan_yields e p
      then Inr (mark_downloaded (initial_result p) (Some (outputPath_of (title p))) PAGE_SCAN)
      else Inr (initial_result p))"
    by (simp add: download_paper_value ok_def)
  have "unit_result e ok p tab = settle (fst (download_paper e (s\<lparr>next_page := tab\<rparr>) p))"
  proof (cases "directPdfUrl p")
    case None
    then show ?thesis
      by (simp add: unit_result_def b val direct_yields_def)
  next
    case (Some d)
    then show ?thesis
      by (simp add: unit_result_def b val direct_yields_def after_direct_def
          download_value_eq settle_def outputPath_of_nonempty)
  qed
  then show ?thesis by (simp add: ok_def)
qed


text \<open>What every unit of a batch keeps while the units are started and resumed in any
  order: it settles with a result of its own paper.\<close>

lemma start_all_own:
  assumes "start_all e w ps = (ts, w')" and "ok = (dir_exists w \<or> mkdir_ok e)"
  shows "list_all2 (\<lambda>p t. \<forall>tab'. \<exists>tab. task_settles_with e ok p tab' t = unit_result e ok p tab) ps ts
    \<and> (dir_exists w' \<or> mkdir_ok e) = ok"
  using assms
proof (induction ps arbitrary: w ts w')
  case Nil
  then show ?case by simp
next
  case (Cons p ps)
  obtain t w1 where t: "start e p w = (t, w1)" by (cases "start e p w")
  obtain ts1 w2 where ts1: "start_all e w1 ps = (ts1, w2)" by (cases "start_all e w1 ps")
  from Cons.prems(1) t ts1 have eq: "ts = t # ts1" "w' = w2" by simp_all
  have ok1: "ok = (dir_exists w1 \<or> mkdir_ok e)"
    using start_dir [OF t] Cons.prems(2) by simp
  have "\<forall>tab'. \<exists>tab. task_settles_with e ok p tab' t = unit_result e ok p tab"
    using start_settles [OF t Cons.prems(2)] by blast
  with Cons.IH [OF ts1 ok1] eq show ?case by simp
qed

lemma length_start_all: "start_all e w ps = (ts, w') \<Longrightarrow> length ts = length ps"
  using start_all_own [of e w ps ts w' "dir_exists w \<or> mkdir_ok e"]
  by (auto dest: list_all2_lengthD)

lemma resume_unit_own:
  assumes "resume_unit e ps (ts, w) i = (ts', w')"
    and "list_all2 (\<lambda>p t. \<forall>tab'. \<exists>tab. task_settles_with e ok p tab' t = unit_result e ok p tab) ps ts"
    and "(dir_exists w \<or> mkdir_ok e) = ok"
  shows "list_all2 (\<lambda>p t. \<forall>tab'. \<exists>tab. task_settles_with e ok p tab' t = unit_result e ok p tab) ps ts'
    \<and> (dir_exists w' \<or> mkdir_ok e) = ok"
proof (cases "i < length ts \<and> i < length ps \<and> (\<exists>wt. ts ! i = Waiting wt)")
  case False
  then have "resume_unit e ps (ts, w) i = (ts, w)"
    by (cases "ts ! i") (auto simp: resume_unit_def)
  with assms show ?thesis by simp
next
  case True
  then obtain wt where wt: "ts ! i = Waiting wt" and i: "i < length ts" "i < length ps" by blast
  obtain t w1 where step: "resume e (ps ! i) wt w = (t, w1)"
    by (cases "resume e (ps ! i) wt w")
  with assms(1) wt i have eq: "ts' = ts[i := t]" "w' = w1"
    by (simp_all add: resume_unit_def)
  have before: "\<forall>tab'. \<exists>tab. settles_with e ok (ps ! i) tab' wt = unit_result e ok (ps ! i) tab"
    using list_all2_nthD [OF assms(2) i(2)] wt by simp
  have "\<forall>tab'. \<exists>tab. task_settles_with e ok (ps ! i) tab' t = unit_result e ok (ps ! i) tab"
  proof
    fix tab'
    obtain tab1 where "task_settles_with e ok (ps ! i) tab' t = settles_with e ok (ps ! i) tab1 wt"
      using resume_settles [OF step, of ok tab'] assms(3) by auto
    moreover obtain tab where "settles_with e ok (ps ! i) tab1 wt = unit_result e ok (ps ! i) tab"
      using before by blast
    ultimately show "\<exists>tab. task_settles_with e ok (ps ! i) tab' t = unit_result e ok (ps ! i) tab"
      by auto
  qed
  then have "list_all2 (\<lambda>p t. \<forall>tab'. \<exists>tab. task_settles_with e ok p tab' t = unit_result e ok p tab)
      (ps[i := ps ! i]) (ts[i := t])"
    using assms(2) by (intro list_all2_update_cong) simp_all
  moreover have "(dir_exists w1 \<or> mkdir_ok e) = ok"
    using resume_dir [OF step] assms(3) by simp
  ultimately show ?thesis using eq by simp
qed

lemma resume_unit_steps:
  assumes "resume_unit e ps (ts, w) i = (ts', w')"
  shows "length ts' = length ts"
    and "j < length ts \<Longrightarrow> steps_left (ts' ! j) \<le> steps_left (ts ! j)"
    and "i < length ts \<Longrightarrow> i < length ps \<Longrightarrow> steps_left (ts' ! i) \<le> steps_left (ts ! i) - 1"
proof -
  show "length ts' = length ts"
    using assms by (auto simp: resume_unit_def split: if_splits task.splits prod.splits)
  show "steps_left (ts' ! j) \<le> steps_left (ts ! j)" if "j < length ts"
  proof (cases "i < length ts \<and> i < length ps \<and> (\<exists>wt. ts ! i = Waiting wt)")
    case False
    then have "resume_unit e ps (ts, w) i = (ts, w)"
      by (cases "ts ! i") (auto simp: resume_unit_def)
    with assms show ?thesis by simp
  next
    case True
    then obtain wt where wt: "ts ! i = Waiting wt" and i: "i < length ts" "i < length ps" by blast
    obtain t w1 where step: "resume e (ps ! i) wt w = (t, w1)"
      by (cases "resume e (ps ! i) wt w")
    with assms wt i have eq: "ts' = ts[i := t]" by (simp add: resume_unit_def)
    from resume_steps [OF step] wt have "steps_left t < steps_left (ts ! i)" by simp
    with eq that i show ?thesis by (cases "j = i") simp_all
  qed
  show "steps_left (ts' ! i) \<le> steps_left (ts ! i) - 1" if i: "i < length ts" "i < length ps"
  proof (cases "ts ! i")
    case (Settled r)
    with assms i have "ts' = ts" by (simp add: resume_unit_def)
    with Settled show ?thesis by simp
  next
    case (Waiting wt)
    obtain t w1 where step: "resume e (ps ! i) wt w = (t, w1)"
      by (cases "resume e (ps ! i) wt w")
    with assms Waiting i have eq: "ts' = ts[i := t]" by (simp add: resume_unit_def)
    from resume_steps [OF step] Waiting have "steps_left t < steps_left (ts ! i)" by simp
    with eq i show ?thesis by simp
  qed
qed

lemma foldl_resume_own:
  assumes "foldl (resume_unit e ps) (ts, w) order = (ts', w')"
    and "list_all2 (\<lambda>p t. \<forall>tab'. \<exists>tab. task_settles_with e ok p tab' t = unit_result e ok p tab) ps ts"
    and "(dir_exists w \<or> mkdir_ok e) = ok"
  shows "list_all2 (\<lambda>p t. \<forall>tab'. \<exists>tab. task_settles_with e ok p tab' t = unit_result e ok p tab) ps ts'"
  using assms
proof (induction order arbitrary: ts w)
  case Nil
  then show ?case by simp
next
  case (Cons i order)
  obtain ts1 w1 where one: "resume_unit e ps (ts, w) i = (ts1, w1)"
    by (cases "resume_unit e ps (ts, w) i")
  with Cons.prems(1) have rest: "foldl (resume_unit e ps) (ts1, w1) order = (ts', w')" by simp
  from resume_unit_own [OF one Cons.prems(2,3)] Cons.IH [OF rest] show ?case by blast
qed

lemma foldl_resume_steps:
  assumes "foldl (resume_unit e ps) (ts, w) order = (ts', w')"
  shows "length ts' = length ts \<and>
    (\<forall>j. j < length ts \<and> j < length ps \<longrightarrow>
       steps_left (ts' ! j) \<le> steps_left (ts ! j) - count_list order j)"
  using assms
proof (induction order arbitrary: ts w)
  case Nil
  then show ?case by simp
next
  case (Cons i order)
  obtain ts1 w1 where one: "resume_unit e ps (ts, w) i = (ts1, w1)"
    by (cases "resume_unit e ps (ts, w) i")
  with Cons.prems have rest: "foldl (resume_unit e ps) (ts1, w1) order = (ts', w')" by simp
  note first = resume_unit_steps [OF one]
  note ih = Cons.IH [OF rest]
  have "steps_left (ts' ! j) \<le> steps_left (ts ! j) - count_list (i # order) j"
    if j: "j < length ts" "j < length ps" for j
  proof -
    have a: "steps_left (ts' ! j) \<le> steps_left (ts1 ! j) - count_list order j"
      using ih first(1) j by simp
    show ?thesis
    proof (cases "i = j")
      case True
      with first(3) j have "steps_left (ts1 ! j) \<le> steps_left (ts ! j) - 1" by simp
      with a True show ?thesis by simp
    next
      case False
      with first(2) [OF j(1)] a show ?thesis by simp
    qed
  qed
  with ih first(1) show ?case by simp
qed

lemma count_list_upt: "count_list [0..<n] j = (if j < n then 1 else 0)"
  by (induction n) auto

lemma count_list_rounds: "j < n \<Longrightarrow> count_list (rounds n) j = 11"
  by (simp add: rounds_def count_list_upt numeral_eq_Suc)

lemma steps_left_le: "steps_left t \<le> 11"
  by (cases t rule: steps_left.cases) simp_all

lemma steps_left_0: "steps_left t = 0 \<Longrightarrow> \<exists>r. t = Settled r"
  by (cases t rule: steps_left.cases) simp_all

lemma map_filter_all_settled:
  assumes "\<forall>t \<in> set ts. \<exists>r. t = Settled r"
  shows "length (List.map_filter settled_of ts) = length ts \<and>
    (\<forall>j < length ts. ts ! j = Settled (List.map_filter settled_of ts ! j))"
  using assms
proof (induction ts)
  case Nil
  then show ?case by (simp add: map_filter_simps)
next
  case (Cons t ts)
  then obtain r where r: "t = Settled r" by auto
  from Cons have ih: "length (List.map_filter settled_of ts) = length ts"
      "\<forall>j < length ts. ts ! j = Settled (List.map_filter settled_of ts ! j)"
    by simp_all
  show ?case
    using r ih by (auto simp: map_filter_simps nth_Cons split: nat.splits)
qed

text \<open>After the rounds no unit waits.\<close>

lemma run_units_settled:
  assumes "foldl (resume_unit e ps) (start_all e s ps) (resume_order e @ rounds (length ps)) =
    (ts, w)"
  shows "length ts = length ps" and "\<forall>t\<in>set ts. \<exists>r. t = Settled r"
proof -
  obtain ts0 w0 where st: "start_all e s ps = (ts0, w0)" by (cases "start_all e s ps")
  have len0: "length ts0 = length ps" using st by (rule length_start_all)
  note steps = foldl_resume_steps [OF assms [unfolded st]]
  show len: "length ts = length ps" using steps len0 by simp
  have "\<exists>r. ts ! j = Settled r" if "j < length ps" for j
  proof -
    have "steps_left (ts ! j) \<le> steps_left (ts0 ! j) - count_list (resume_order e @ rounds (length ps)) j"
      using steps that len0 by simp
    also have "\<dots> \<le> 11 - 11"
      using steps_left_le [of "ts0 ! j"] count_list_rounds [OF that] by simp
    finally have "steps_left (ts ! j) = 0" by simp
    then show ?thesis by (rule steps_left_0)
  qed
  then show "\<forall>t\<in>set ts. \<exists>r. t = Settled r"
    using len by (auto simp: in_set_conv_nth)
qed

text \<open>The array of \<open>Promise.allSettled\<close>: one entry for each unit, and each entry is
  what the unit of its paper gives on its own, with the context number that unit was
  given.\<close>

lemma run_units_own:
  "length (fst (run_units e s ps)) = length ps \<and>
   (\<forall>i < length ps. \<exists>tab. fst (run_units e s ps) ! i =
      settle (fst (download_paper e (s\<lparr>next_page := tab\<rparr>) (ps ! i))))"
proof -
  define ok where "ok = (dir_exists s \<or> mkdir_ok e)"
  obtain ts0 w0 where st: "start_all e s ps = (ts0, w0)" by (cases "start_all e s ps")
  obtain ts w where run:
      "foldl (resume_unit e ps) (start_all e s ps) (resume_order e @ rounds (length ps)) = (ts, w)"
    by (cases "foldl (resume_unit e ps) (start_all e s ps) (resume_order e @ rounds (length ps))")
  have res: "fst (run_units e s ps) = List.map_filter settled_of ts"
    unfolding run_units_def run by simp
  note own0 = start_all_own [OF st ok_def]
  have own: "list_all2 (\<lambda>p t. \<forall>tab'. \<exists>tab. task_settles_with e ok p tab' t = unit_result e ok p tab) ps ts"
    using foldl_resume_own [OF run [unfolded st]] own0 by blast
  have len: "length ts = length ps" using run by (rule run_units_settled(1))
  have "\<forall>t \<in> set ts. \<exists>r. t = Settled r" using run by (rule run_units_settled(2))
  note all = map_filter_all_settled [OF this]
  have "\<exists>tab. List.map_filter settled_of ts ! i =
      settle (fst (download_paper e (s\<lparr>next_page := tab\<rparr>) (ps ! i)))" if i: "i < length ps" for i
  proof -
    from all i len have t: "ts ! i = Settled (List.map_filter settled_of ts ! i)" by simp
    from list_all2_nthD [OF own i] t
    obtain tab where "List.map_filter settled_of ts ! i = unit_result e ok (ps ! i) tab"
      by (metis task_settles_with.simps(2))
    then show ?thesis by (auto simp: ok_def unit_result_eq)
  qed
  with all len res show ?thesis by simp
qed










text \<open>The context numbers follow the calls of \<open>newPage\<close>, not the order of the
  papers: \<open>paper_a\<close> waits for its direct link while \<open>paper_b\<close> asks for a context,
  so when the first context cannot be opened it is \<open>paper_b\<close> that rejects.\<close>

lemma first_context_goes_to_second_paper:
  "fst (run_units ((env_with direct_blocked (\<lambda>u. None))\<lparr>new_page_ok := (\<lambda>n. n \<noteq> 0)\<rparr>)
         fresh_world [paper_a, paper_b]) =
     [Fulfilled \<lparr> r_title = js ''Paper A'', downloaded = False, savedPath = None, r_method = None \<rparr>,
      Rejected NewPageError]"
proof -
  let ?e = "(env_with direct_blocked (\<lambda>u. None))\<lparr>new_page_ok := (\<lambda>n. n \<noteq> 0)\<rparr>"
  have fetch: "on_fetch ((env_with direct_blocked (\<lambda>u. None))\<lparr>new_page_ok := f\<rparr>)
      (js ''http://host/a.pdf'') = None" for f
    by (simp add: on_fetch_def env_with_def direct_blocked_def html_response_def response_ok_def
        contentType_of_def js_def)
  have env: "mkdir_ok (env_with direct_blocked (\<lambda>u. None))"
      "\<And>u. page_at (env_with direct_blocked (\<lambda>u. None)) u = None"
      "\<And>n. close_ok (env_with direct_blocked (\<lambda>u. None)) n"
      "resume_order (env_with direct_blocked (\<lambda>u. None)) = []"
    by (simp_all add: env_with_def)
  have papers: "directPdfUrl paper_a = Some (js ''http://host/a.pdf'')"
      "paperUrl paper_a = Some (js ''http://site/a'')" "title paper_a = js ''Paper A''"
      "directPdfUrl paper_b = None" "paperUrl paper_b = Some (js ''http://site/b'')"
    by (simp_all add: paper_a_def paper_b_def)
  have urls: "js ''http://host/a.pdf'' \<noteq> []" "js ''http://site/a'' \<noteq> []" "js ''http://site/b'' \<noteq> []"
    by (simp_all add: js_def)
  have st: "start_all ?e fresh_world [paper_a, paper_b] =
      ([Waiting FetchDirect, Waiting (OpenTab 0)],
       \<lparr> dir_exists = True, files = (\<lambda>p. None), next_page = 1,
         events = [Fetch (js ''http://host/a.pdf'')] \<rparr>)"
    by (simp add: start_def enter_b_def issue_download_def ensureOutputDir_def emit_def
        fresh_world_def env papers urls)
  have ord: "resume_order ?e @ rounds (length [paper_a, paper_b]) =
      [0, 1] @ [0, 1] @ [0, 1] @ [0, 1] @ [0, 1] @ [0, 1] @ concat (replicate 5 [0, 1])"
    by (simp add: env rounds_def numeral_eq_Suc upt_rec)
  show ?thesis
    unfolding run_units_def st ord
    by (simp add: resume_unit_def fetch env papers urls enter_b_def call_close_def closes_with_def
        settle_def emit_def initial_result_def map_filter_simps numeral_eq_Suc)
qed


section \<open>The summary, the extraction and the batch\<close>

text \<open>
  Claim C9. The three counts of the summary are functions of the list of outcomes alone;
  the downloaded and the failed ones add up to its length, and the downloaded ones are
  no more than the papers found, which is that length.
\<close>

theorem summary_counts:
  "pdfs_downloaded (printSummary results) + failed_skipped (printSummary results) = length results \<and>
   pdfs_downloaded (printSummary results) \<le> papers_found (printSummary results) \<and>
   papers_found (printSummary results) = length results"
  by (simp add: printSummary_def sum_length_filter_compl)

lemma foldl_push_item: "foldl push_item acc xs = acc @ map extract_item xs"
  by (induction xs arbitrary: acc) (simp_all add: push_item_def)

lemma extractResults_Inr:
  "extractResults d = Inr papers \<Longrightarrow>
   \<not> isCaptcha d \<and> has_results_container d \<and> papers = map extract_item (items d)"
  by (auto simp: extractResults_def foldl_push_item split: if_splits)

text \<open>
  Claim C3. A page whose title contains \<open>captcha\<close> in any case of the letters, or that
  has the CAPTCHA form or the reCAPTCHA element, makes \<open>extractResults\<close> throw the
  CAPTCHA error, whatever else the page holds: the check comes before the wait for the
  results and before the extraction. No paper is returned, and \<open>main\<close> ends with no
  outcome and the state unchanged.
\<close>

theorem captcha_blocks_extraction:
  "str_includes (toLowerCase (doc_title d)) (js ''captcha'') \<or> has_captcha_form d \<or> has_recaptcha d
   \<Longrightarrow> extractResults d = Inl CaptchaDetected \<and>
       crawl e s d maxResults = ([], Some CaptchaDetected, s)"
  by (simp add: extractResults_def crawl_def isCaptcha_def)

text \<open>
  Claim C3 on a page titled \<open>Solve the CAPTCHA\<close> that has the results container and
  three result blocks.
\<close>

theorem captcha_blocks_extraction_witness:
  "has_results_container captcha_page \<and> length (items captcha_page) = 3 \<and>
   extractResults captcha_page = Inl CaptchaDetected"
proof -
  have "str_includes (toLowerCase (doc_title captcha_page)) (js ''captcha'')"
    by (simp add: captcha_page_def toLowerCase_def lower_unit_def js_def)
  then have "extractResults captcha_page = Inl CaptchaDetected"
    using captcha_blocks_extraction [of captcha_page] by blast
  then show ?thesis by (simp add: captcha_page_def results_page_def)
qed

lemma relative_index_nonneg: "0 \<le> k \<Longrightarrow> relative_index len k = min (nat k) len"
  by (simp add: relative_index_def)

lemma targets_of_nonneg: "0 \<le> k \<Longrightarrow> targets_of papers (Num k) = take (nat k) papers"
  by (simp add: targets_of_def array_slice_def relative_index_def to_integer_def Let_def min_def)

lemma targets_of_NaN: "targets_of papers NaN = []"
  by (simp add: targets_of_def array_slice_def relative_index_def to_integer_def Let_def)

lemma length_run_units: "length (fst (run_units e s ps)) = length ps"
  using run_units_own [of e s ps] by blast

lemma extract_results_page: "extractResults results_page = Inr [paper_a, paper_b, paper_c]"
proof -
  have "\<not> isCaptcha results_page"
    by (simp add: isCaptcha_def results_page_def toLowerCase_def lower_unit_def js_def)
  moreover have "map extract_item (items results_page) = [paper_a, paper_b, paper_c]"
    by (simp add: results_page_def extract_item_def pdf_slot_def badge_step_def trim_def
        toLowerCase_def lower_unit_def is_ws_def paper_a_def paper_b_def paper_c_def js_def)
  ultimately show ?thesis
    by (simp add: extractResults_def foldl_push_item) (simp add: results_page_def)
qed

text \<open>
  Claim C5, as amended. The papers are the result blocks in the order of the document.
  For a limit that is not negative, the papers selected are the first \<open>k\<close> of them, all
  of them when there are fewer, and the units that \<open>main\<close> runs are those of the
  selected papers, one for each.
\<close>

theorem order_and_selection:
  "(extractResults d = Inr papers \<longrightarrow> papers = map extract_item (items d)) \<and>
   (0 \<le> k \<longrightarrow> targets_of papers (Num k) = take (nat k) papers) \<and>
   (extractResults d = Inr papers \<and> papers \<noteq> [] \<and> 0 \<le> k \<longrightarrow>
      crawl e s d (Num k) =
        (foldl push_fulfilled [] (fst (run_units e s (take (nat k) papers))), None,
         snd (run_units e s (take (nat k) papers))) \<and>
      length (fst (run_units e s (take (nat k) papers))) = min (nat k) (length papers))"
proof (intro conjI impI)
  assume "extractResults d = Inr papers"
  then show "papers = map extract_item (items d)" by (simp add: extractResults_Inr)
next
  assume "0 \<le> k"
  then show "targets_of papers (Num k) = take (nat k) papers" by (rule targets_of_nonneg)
next
  assume a: "extractResults d = Inr papers \<and> papers \<noteq> [] \<and> 0 \<le> k"
  then show "crawl e s d (Num k) =
      (foldl push_fulfilled [] (fst (run_units e s (take (nat k) papers))), None,
       snd (run_units e s (take (nat k) papers)))"
    by (simp add: crawl_def targets_of_nonneg split: prod.splits)
next
  show "length (fst (run_units e s (take (nat k) papers))) = min (nat k) (length papers)"
    by (simp add: length_run_units)
qed

text \<open>
  Claim C5 on the page with three result blocks and the limit 2: the papers come in the
  order of the blocks, and the first two are selected.
\<close>

theorem order_and_selection_witness:
  "extractResults results_page = Inr [paper_a, paper_b, paper_c] \<and>
   targets_of [paper_a, paper_b, paper_c] (Num 2) = [paper_a, paper_b] \<and>
   length (fst (run_units (env_with (\<lambda>u. html_response) (\<lambda>u. None)) fresh_world
                  (take (nat 2) [paper_a, paper_b, paper_c]))) = 2"
proof -
  let ?e = "env_with (\<lambda>u. html_response) (\<lambda>u. None)"
  note inst = order_and_selection [of results_page "[paper_a, paper_b, paper_c]" 2 ?e fresh_world]
  have k: "(0::int) \<le> 2" and ne: "[paper_a, paper_b, paper_c] \<noteq> []" by simp_all
  from inst k have "targets_of [paper_a, paper_b, paper_c] (Num 2) =
      take (nat 2) [paper_a, paper_b, paper_c]"
    by blast
  then have sel: "targets_of [paper_a, paper_b, paper_c] (Num 2) = [paper_a, paper_b]"
    by simp
  from inst extract_results_page k ne
  have "length (fst (run_units ?e fresh_world (take (nat 2) [paper_a, paper_b, paper_c]))) =
      min (nat 2) (length [paper_a, paper_b, paper_c])"
    by blast
  then have "length (fst (run_units ?e fresh_world (take (nat 2) [paper_a, paper_b, paper_c]))) = 2"
    by simp
  with sel extract_results_page show ?thesis by blast
qed

text \<open>
  Claim C5 as stated, for every limit, fails on a negative one: \<open>slice(0, -1)\<close> counts
  from the end, so of three papers the first two are selected, which is neither the
  first \<open>-1\<close> of them nor all of them.
\<close>

theorem negative_limit_selects_from_end:
  "targets_of [paper_a, paper_b, paper_c] (Num (- 1)) = [paper_a, paper_b] \<and>
   take (nat (- 1)) [paper_a, paper_b, paper_c] = []"
  by (simp add: targets_of_def array_slice_def relative_index_def to_integer_def)


















end
